theory Spec2Isabelle
  imports Complex_Main "HOL-Library.Sublist" "HOL-Library.Word"
begin

section \<open>JavaScript values\<close>

subsection \<open>Strings\<close>

text \<open>
  A JavaScript string is a sequence of UTF-16 code units. \<open>String.prototype.includes\<close>
  and \<open>String.prototype.startsWith\<close> compare code units, so they are the contiguous
  sublist and the prefix relation on that sequence.
\<close>

type_synonym code_unit = "16 word"
type_synonym jsstring = "code_unit list"

definition js_includes :: "jsstring \<Rightarrow> jsstring \<Rightarrow> bool" where
  "js_includes s search = sublist search s"

definition js_startsWith :: "jsstring \<Rightarrow> jsstring \<Rightarrow> bool" where
  "js_startsWith s search = prefix search s"

text \<open>The literals of \<open>App.tsx\<close>: "\<open>torikeshi\<close>" (U+53D6 U+6D88, cancellation),
  "\<open>keihou\<close>" (U+8B66 U+5831, warning) and the ASCII word \<open>Warning\<close>.\<close>

definition str_cancel :: jsstring where
  "str_cancel = [0x53D6, 0x6D88]"

definition str_keihou :: jsstring where
  "str_keihou = [0x8B66, 0x5831]"

definition str_Warning :: jsstring where
  "str_Warning = [0x57, 0x61, 0x72, 0x6E, 0x69, 0x6E, 0x67]"

definition str_Infinity :: jsstring where
  "str_Infinity = [0x49, 0x6E, 0x66, 0x69, 0x6E, 0x69, 0x74, 0x79]"

subsection \<open>Numbers\<close>

text \<open>
  A JavaScript number is a finite value, one of the two infinities, or NaN. A finite value
  is given by the real it denotes; the sign of zero is not modelled. Comparisons are exact
  and false with NaN, as in IEEE 754. The operations \<open>js_add\<close> to \<open>js_div\<close> give the exact
  result; the rounded operators are defined after them.
\<close>

datatype jsnum = NaN | NegInf | Fin real | PosInf

fun isNaN :: "jsnum \<Rightarrow> bool" where
  "isNaN NaN = True"
| "isNaN _ = False"

fun js_lt :: "jsnum \<Rightarrow> jsnum \<Rightarrow> bool" where
  "js_lt NaN _ = False"
| "js_lt _ NaN = False"
| "js_lt PosInf _ = False"
| "js_lt _ NegInf = False"
| "js_lt NegInf _ = True"
| "js_lt _ PosInf = True"
| "js_lt (Fin a) (Fin b) = (a < b)"

definition js_gt :: "jsnum \<Rightarrow> jsnum \<Rightarrow> bool" where
  "js_gt a b = js_lt b a"

text \<open>Strict equality \<open>===\<close> on numbers: NaN is not equal to itself.\<close>

definition js_eq :: "jsnum \<Rightarrow> jsnum \<Rightarrow> bool" where
  "js_eq a b = (a \<noteq> NaN \<and> a = b)"

fun js_neg :: "jsnum \<Rightarrow> jsnum" where
  "js_neg NaN = NaN"
| "js_neg NegInf = PosInf"
| "js_neg PosInf = NegInf"
| "js_neg (Fin a) = Fin (- a)"

fun js_add :: "jsnum \<Rightarrow> jsnum \<Rightarrow> jsnum" where
  "js_add NaN _ = NaN"
| "js_add _ NaN = NaN"
| "js_add PosInf NegInf = NaN"
| "js_add NegInf PosInf = NaN"
| "js_add PosInf _ = PosInf"
| "js_add _ PosInf = PosInf"
| "js_add NegInf _ = NegInf"
| "js_add _ NegInf = NegInf"
| "js_add (Fin a) (Fin b) = Fin (a + b)"

definition js_sub :: "jsnum \<Rightarrow> jsnum \<Rightarrow> jsnum" where
  "js_sub a b = js_add a (js_neg b)"

fun js_sgn_inf :: "real \<Rightarrow> jsnum" where
  "js_sgn_inf s = (if s = 0 then NaN else if 0 < s then PosInf else NegInf)"

fun js_mul :: "jsnum \<Rightarrow> jsnum \<Rightarrow> jsnum" where
  "js_mul NaN _ = NaN"
| "js_mul _ NaN = NaN"
| "js_mul (Fin a) (Fin b) = Fin (a * b)"
| "js_mul (Fin a) PosInf = js_sgn_inf a"
| "js_mul (Fin a) NegInf = js_sgn_inf (- a)"
| "js_mul PosInf (Fin b) = js_sgn_inf b"
| "js_mul NegInf (Fin b) = js_sgn_inf (- b)"
| "js_mul PosInf PosInf = PosInf"
| "js_mul NegInf NegInf = PosInf"
| "js_mul PosInf NegInf = NegInf"
| "js_mul NegInf PosInf = NegInf"

text \<open>Division: a non-zero value over zero is an infinity, zero over zero and infinity
  over infinity are NaN, a finite value over an infinity is zero.\<close>

fun js_div :: "jsnum \<Rightarrow> jsnum \<Rightarrow> jsnum" where
  "js_div NaN _ = NaN"
| "js_div _ NaN = NaN"
| "js_div (Fin a) (Fin b) = (if b = 0 then js_sgn_inf a else Fin (a / b))"
| "js_div (Fin a) _ = Fin 0"
| "js_div PosInf (Fin b) = (if 0 \<le> b then PosInf else NegInf)"
| "js_div NegInf (Fin b) = (if 0 \<le> b then NegInf else PosInf)"
| "js_div _ _ = NaN"

text \<open>\<open>Math.min\<close> of two arguments: NaN if either is NaN.\<close>

definition Math_min :: "jsnum \<Rightarrow> jsnum \<Rightarrow> jsnum" where
  "Math_min a b = (if isNaN a \<or> isNaN b then NaN else if js_lt b a then b else a)"

text \<open>
  The Number nearest to a mathematical value. Only the overflow is modelled: a value whose
  magnitude reaches \<open>2^1024 - 2^970\<close> rounds to an infinity.
\<close>

definition number_of_real :: "real \<Rightarrow> jsnum" where
  "number_of_real r =
     (if 2 ^ 1024 - 2 ^ 970 \<le> r then PosInf
      else if r \<le> - (2 ^ 1024 - 2 ^ 970) then NegInf
      else Fin r)"

text \<open>
  Rounding to the nearest double, ties to even. A non-zero \<open>x\<close> with
  \<open>2^e \<le> |x| < 2^(e+1)\<close> is rounded to a multiple of \<open>2^(e-52)\<close>, and of \<open>2^(-1074)\<close> in
  the subnormal range; a result of magnitude \<open>2^1024\<close> is an infinity.
\<close>

definition round_even :: "real \<Rightarrow> int" where
  "round_even y =
     (let f = \<lfloor>y\<rfloor>; d = y - of_int f
      in if d < 1 / 2 then f else if 1 / 2 < d then f + 1 else if even f then f else f + 1)"

definition fl_exponent :: "real \<Rightarrow> int" where
  "fl_exponent x = max \<lfloor>log 2 \<bar>x\<bar>\<rfloor> (- 1022)"

definition fl_quantum :: "real \<Rightarrow> real" where
  "fl_quantum x = 2 powi (fl_exponent x - 52)"

definition fl :: "real \<Rightarrow> jsnum" where
  "fl x =
     (if x = 0 then Fin 0
      else
        let r = of_int (round_even (x / fl_quantum x)) * fl_quantum x
        in if 2 ^ 1024 \<le> \<bar>r\<bar> then (if 0 < x then PosInf else NegInf) else Fin r)"

definition rnd :: "jsnum \<Rightarrow> jsnum" where
  "rnd a = (case a of Fin r \<Rightarrow> fl r | _ \<Rightarrow> a)"

text \<open>The arithmetic operators on doubles: the exact result, rounded. The viewport
  fitting below is computed with them. A decimal literal of the code denotes the nearest
  double: \<open>lit_0_2\<close> is the literal \<open>0.2\<close> and \<open>lit_0_35\<close> the literal \<open>0.35\<close>.\<close>

definition f64_add :: "jsnum \<Rightarrow> jsnum \<Rightarrow> jsnum" where
  "f64_add a b = rnd (js_add a b)"

definition f64_sub :: "jsnum \<Rightarrow> jsnum \<Rightarrow> jsnum" where
  "f64_sub a b = rnd (js_sub a b)"

definition f64_mul :: "jsnum \<Rightarrow> jsnum \<Rightarrow> jsnum" where
  "f64_mul a b = rnd (js_mul a b)"

definition f64_div :: "jsnum \<Rightarrow> jsnum \<Rightarrow> jsnum" where
  "f64_div a b = rnd (js_div a b)"

definition lit_0_2 :: jsnum where
  "lit_0_2 = fl (2 / 10)"

definition lit_0_35 :: jsnum where
  "lit_0_35 = fl (35 / 100)"

subsection \<open>\<open>parseFloat\<close> and \<open>parseInt\<close>\<close>

text \<open>White space and line terminators, skipped at the start of the input.\<close>

definition is_space :: "code_unit \<Rightarrow> bool" where
  "is_space c = (c \<in> set [0x9, 0xA, 0xB, 0xC, 0xD, 0x20, 0xA0, 0x1680, 0x2000, 0x2001,
     0x2002, 0x2003, 0x2004, 0x2005, 0x2006, 0x2007, 0x2008, 0x2009, 0x200A, 0x2028,
     0x2029, 0x202F, 0x205F, 0x3000, 0xFEFF])"

definition is_digit :: "code_unit \<Rightarrow> bool" where
  "is_digit c = (0x30 \<le> c \<and> c \<le> 0x39)"

definition digits_value :: "jsstring \<Rightarrow> nat" where
  "digits_value ds = foldl (\<lambda>acc c. 10 * acc + unat (c - 0x30)) 0 ds"

text \<open>An exponent part \<open>e\<close>/\<open>E\<close>, an optional sign and at least one digit; anything else
  is not part of the numeric prefix and counts as exponent zero.\<close>

definition exponent_part :: "jsstring \<Rightarrow> int" where
  "exponent_part s =
     (case s of
        [] \<Rightarrow> 0
      | c # r \<Rightarrow>
          if c = 0x65 \<or> c = 0x45 then
            (case r of
               [] \<Rightarrow> 0
             | sg # r' \<Rightarrow>
                 if sg = 0x2B \<or> sg = 0x2D then
                   (let ds = takeWhile is_digit r' in
                    if ds = [] then 0
                    else if sg = 0x2D then - int (digits_value ds) else int (digits_value ds))
                 else
                   (let ds = takeWhile is_digit r in
                    if ds = [] then 0 else int (digits_value ds)))
          else 0)"

text \<open>The unsigned part: \<open>Infinity\<close>, or digits with an optional fraction and exponent.
  \<open>None\<close> when no prefix is a decimal literal.\<close>

definition unsigned_decimal :: "jsstring \<Rightarrow> jsnum option" where
  "unsigned_decimal s =
     (if prefix str_Infinity s then Some PosInf
      else
        let ip = takeWhile is_digit s;
            r = dropWhile is_digit s;
            has_dot = (r \<noteq> [] \<and> hd r = 0x2E);
            fp = (if has_dot then takeWhile is_digit (tl r) else []);
            r' = (if has_dot then dropWhile is_digit (tl r) else r)
        in if ip = [] \<and> fp = [] then None
           else Some (number_of_real
                  ((real (digits_value ip) + real (digits_value fp) / 10 ^ length fp)
                     * 10 powi exponent_part r')))"

definition parseFloat :: "jsstring \<Rightarrow> jsnum" where
  "parseFloat s =
     (let t = dropWhile is_space s in
      case t of
        [] \<Rightarrow> NaN
      | c # r \<Rightarrow>
          if c = 0x2D then (case unsigned_decimal r of None \<Rightarrow> NaN | Some v \<Rightarrow> js_neg v)
          else if c = 0x2B then (case unsigned_decimal r of None \<Rightarrow> NaN | Some v \<Rightarrow> v)
          else (case unsigned_decimal t of None \<Rightarrow> NaN | Some v \<Rightarrow> v))"

text \<open>\<open>parseInt(s, 10)\<close>: leading white space, an optional sign, then the longest run of
  decimal digits; NaN when there is none.\<close>

definition parseInt10 :: "jsstring \<Rightarrow> jsnum" where
  "parseInt10 s =
     (let t = dropWhile is_space s;
          neg = (t \<noteq> [] \<and> hd t = 0x2D);
          u = (if t \<noteq> [] \<and> (hd t = 0x2D \<or> hd t = 0x2B) then tl t else t);
          ds = takeWhile is_digit u
      in if ds = [] then NaN
         else if neg then js_neg (number_of_real (real (digits_value ds)))
         else number_of_real (real (digits_value ds)))"

text \<open>\<open>s.replace(/[^0-9]/g, '')\<close> deletes every code unit that is not a decimal digit.\<close>

definition strip_non_digits :: "jsstring \<Rightarrow> jsstring" where
  "strip_non_digits s = filter is_digit s"

section \<open>The early-warning state (\<open>App.tsx\<close>)\<close>

text \<open>\<open>EEWState\<close> and \<open>WolfxEEWData\<close> of the type declarations. An optional field is an
  \<open>option\<close>; timestamps are the integer milliseconds of \<open>Date.now()\<close>.\<close>

record EEWState =
  isActive :: bool
  isWarning :: bool
  isFinal :: "bool option"
  hypocenterName :: "jsstring option"
  magnitude :: "jsnum option"
  depth :: "jsnum option"
  maxIntensity :: "jsstring option"
  areas :: "jsstring list"
  occurredTime :: "jsstring option"
  title :: "jsstring option"
  updatedTime :: "int option"

text \<open>The frame's own \<open>isFinal\<close> field is named \<open>isFinalFlag\<close> here, apart from the
  state's field.\<close>

record WolfxEEWData =
  Type :: jsstring
  Title :: jsstring
  Hypocenter :: jsstring
  Magnitude :: jsstring
  Depth :: "jsstring option"
  MaxIntensity :: jsstring
  AnnouncedTime :: jsstring
  EventID :: jsstring
  isCancel :: "bool option"
  isFinalFlag :: "bool option"

text \<open>Truthiness of an optional boolean: \<open>undefined\<close> and \<open>false\<close> are falsy.\<close>

fun truthy :: "bool option \<Rightarrow> bool" where
  "truthy (Some b) = b"
| "truthy None = False"

text \<open>The guard of the first branch of \<open>handleLiveWolfxEEW\<close>.\<close>

definition is_cancel_frame :: "WolfxEEWData \<Rightarrow> bool" where
  "is_cancel_frame d = (truthy (isCancel d) \<or> js_includes (Title d) str_cancel)"

definition parse_magnitude :: "jsstring \<Rightarrow> jsnum option" where
  "parse_magnitude m =
     (if m \<noteq> [] then (let v = parseFloat m in if \<not> isNaN v then Some v else None)
      else None)"

definition parse_depth :: "jsstring option \<Rightarrow> jsnum option" where
  "parse_depth dp =
     (case dp of
        None \<Rightarrow> None
      | Some s \<Rightarrow>
          if s \<noteq> [] then
            (let v = parseInt10 (strip_non_digits s) in if \<not> isNaN v then Some v else None)
          else None)"

text \<open>\<open>handleLiveWolfxEEW\<close>: the state is set to a fresh object in both branches; the
  previous state \<open>prev\<close> is not read. \<open>now\<close> is the value of \<open>Date.now()\<close>.\<close>

definition handleLiveWolfxEEW :: "WolfxEEWData \<Rightarrow> int \<Rightarrow> EEWState \<Rightarrow> EEWState" where
  "handleLiveWolfxEEW d now prev =
     (if truthy (isCancel d) \<or> js_includes (Title d) str_cancel then
        \<lparr>isActive = False, isWarning = False, isFinal = Some True, hypocenterName = None,
         magnitude = None, depth = None, maxIntensity = None, areas = [],
         occurredTime = None, title = None, updatedTime = None\<rparr>
      else
        \<lparr>isActive = True,
         isWarning = (js_includes (Title d) str_keihou \<or> js_includes (Title d) str_Warning),
         isFinal = Some (truthy (isFinalFlag d)),
         hypocenterName = Some (Hypocenter d),
         magnitude = parse_magnitude (Magnitude d),
         depth = parse_depth (Depth d),
         maxIntensity = Some (MaxIntensity d),
         areas = [],
         occurredTime = Some (AnnouncedTime d),
         title = Some (Title d),
         updatedTime = Some now\<rparr>)"

text \<open>A sequence of frames, each with the clock value at its arrival, processed in order.\<close>

fun process_frames :: "(WolfxEEWData \<times> int) list \<Rightarrow> EEWState \<Rightarrow> EEWState" where
  "process_frames [] s = s"
| "process_frames ((d, now) # fs) s = process_frames fs (handleLiveWolfxEEW d now s)"

subsection \<open>The staleness timeout\<close>

datatype ViewMode = live | history | simulation

text \<open>The timeout effect depends on \<open>[liveEEW, mode]\<close>. It returns at once, installing no
  timer, when \<open>mode !== 'live' || !liveEEW.isActive\<close>; otherwise it installs an interval
  timer of one second.\<close>

definition timeout_timer_installed :: "ViewMode \<Rightarrow> EEWState \<Rightarrow> bool" where
  "timeout_timer_installed mode liveEEW = (\<not> (mode \<noteq> live \<or> \<not> isActive liveEEW))"

text \<open>The interval callback at clock value \<open>now\<close>:
  \<open>liveEEW.updatedTime && Date.now() - liveEEW.updatedTime > 20000\<close>. A timestamp is truthy
  when it is defined and not zero.\<close>

definition timeout_callback :: "int \<Rightarrow> EEWState \<Rightarrow> EEWState" where
  "timeout_callback now liveEEW =
     (case updatedTime liveEEW of
        None \<Rightarrow> liveEEW
      | Some t \<Rightarrow>
          if t \<noteq> 0 \<and> now - t > 20000 then liveEEW\<lparr>isActive := False, areas := []\<rparr>
          else liveEEW)"

text \<open>One tick of the clock: the callback runs if the timer is installed.\<close>

definition timeout_tick :: "ViewMode \<Rightarrow> int \<Rightarrow> EEWState \<Rightarrow> EEWState" where
  "timeout_tick mode now liveEEW =
     (if timeout_timer_installed mode liveEEW then timeout_callback now liveEEW else liveEEW)"

text \<open>Successive ticks of the interval timer at the given clock values, with no frame
  arriving in between.\<close>

fun run_ticks :: "ViewMode \<Rightarrow> int list \<Rightarrow> EEWState \<Rightarrow> EEWState" where
  "run_ticks mode [] s = s"
| "run_ticks mode (now # ticks) s = run_ticks mode ticks (timeout_tick mode now s)"

section \<open>The two feeds (\<open>connectP2P\<close>, \<open>connectWolfx\<close>)\<close>

datatype conn_status = connected | disconnected

text \<open>What the handlers of one feed act on: the status shown, whether \<open>ws.close()\<close> has
  been called on the current socket, the delays in milliseconds of the
  \<open>setTimeout(connect, ...)\<close> calls made so far, and the number of sockets opened.\<close>

record feed =
  status :: conn_status
  closeCalled :: bool
  reconnectDelays :: "nat list"
  connects :: nat

text \<open>\<open>JSON.parse(event.data)\<close> either throws a \<open>SyntaxError\<close> or returns a value.\<close>

datatype 'a json_parse = SyntaxError | Parsed 'a

datatype exn = UncaughtSyntaxError

record P2PQuakeData =
  quake_id :: jsstring
  code :: int

text \<open>A parsed early-warning message as the handler reads it: the tags \<open>data.Type\<close> and
  \<open>data.type\<close>, each of which may be absent, and the object itself, which is passed on as
  \<open>WolfxEEWData\<close>.\<close>

record wolfx_message =
  tag_Type :: "jsstring option"
  tag_type :: "jsstring option"
  body :: WolfxEEWData

definition str_jma_eew :: jsstring where
  "str_jma_eew = [0x6A, 0x6D, 0x61, 0x5F, 0x65, 0x65, 0x77]"

record app =
  liveQuake :: "P2PQuakeData option"
  liveEEW :: EEWState
  p2p :: feed
  wolfx :: feed

definition feed_onopen :: "feed \<Rightarrow> feed" where
  "feed_onopen f = f\<lparr>status := connected\<rparr>"

text \<open>\<open>ws.onclose\<close>: the status becomes disconnected and \<open>setTimeout(connect, 5000)\<close> is
  called.\<close>

definition feed_onclose :: "feed \<Rightarrow> feed" where
  "feed_onclose f = f\<lparr>status := disconnected, reconnectDelays := reconnectDelays f @ [5000]\<rparr>"

text \<open>\<open>ws.onerror = () => ws.close()\<close>.\<close>

definition feed_onerror :: "feed \<Rightarrow> feed" where
  "feed_onerror f = f\<lparr>closeCalled := True\<rparr>"

text \<open>The reconnect timer fires: \<open>connect\<close> opens a new socket.\<close>

definition feed_connect :: "feed \<Rightarrow> feed" where
  "feed_connect f = f\<lparr>closeCalled := False, connects := Suc (connects f)\<rparr>"

text \<open>\<open>connectP2P\<close>'s \<open>onmessage\<close> has no \<open>try\<close>: an exception of \<open>JSON.parse\<close> leaves the
  handler. The result is the state after the handler and the exception that escaped.\<close>

definition p2p_onmessage :: "P2PQuakeData json_parse \<Rightarrow> app \<Rightarrow> app \<times> exn option" where
  "p2p_onmessage ev st =
     (case ev of
        SyntaxError \<Rightarrow> (st, Some UncaughtSyntaxError)
      | Parsed d \<Rightarrow> (if code d = 551 then st\<lparr>liveQuake := Some d\<rparr> else st, None))"

text \<open>\<open>connectWolfx\<close>'s \<open>onmessage\<close> catches the exception and logs it.\<close>

definition wolfx_onmessage :: "wolfx_message json_parse \<Rightarrow> int \<Rightarrow> app \<Rightarrow> app \<times> exn option" where
  "wolfx_onmessage ev now st =
     (case ev of
        SyntaxError \<Rightarrow> (st, None)
      | Parsed m \<Rightarrow>
          (if tag_Type m = Some str_jma_eew \<or> tag_type m = Some str_jma_eew
           then st\<lparr>liveEEW := handleLiveWolfxEEW (body m) now (liveEEW st)\<rparr>
           else st, None))"

definition p2p_onclose :: "app \<Rightarrow> app" where
  "p2p_onclose st = st\<lparr>p2p := feed_onclose (p2p st)\<rparr>"

definition wolfx_onclose :: "app \<Rightarrow> app" where
  "wolfx_onclose st = st\<lparr>wolfx := feed_onclose (wolfx st)\<rparr>"

definition p2p_onerror :: "app \<Rightarrow> app" where
  "p2p_onerror st = st\<lparr>p2p := feed_onerror (p2p st)\<rparr>"

definition wolfx_onerror :: "app \<Rightarrow> app" where
  "wolfx_onerror st = st\<lparr>wolfx := feed_onerror (wolfx st)\<rparr>"

section \<open>Coordinate resolution (\<open>MapComponent.tsx\<close>)\<close>

text \<open>
  The table \<open>STATION_COORDINATES\<close> is a parameter: its entries \<open>(name, (lat, lon))\<close> in the
  order of \<open>Object.keys\<close>.
\<close>

type_synonym gazetteer = "(jsstring \<times> (jsnum \<times> jsnum)) list"

definition Object_keys :: "gazetteer \<Rightarrow> jsstring list" where
  "Object_keys g = map fst g"

text \<open>Truthiness of the result of \<open>Array.prototype.find\<close> on strings: \<open>undefined\<close> and the
  empty string are falsy.\<close>

fun truthy_str :: "jsstring option \<Rightarrow> bool" where
  "truthy_str None = False"
| "truthy_str (Some s) = (s \<noteq> [])"

definition findCoordinate :: "gazetteer \<Rightarrow> jsstring \<Rightarrow> (jsnum \<times> jsnum) option" where
  "findCoordinate g name =
     (let keys = Object_keys g;
          match0 = find (\<lambda>k. k = name) keys;
          match1 = (if \<not> truthy_str match0 then find (\<lambda>k. js_startsWith name k) keys
                    else match0);
          match2 = (if \<not> truthy_str match1 then find (\<lambda>k. js_includes name k) keys
                    else match1)
      in if truthy_str match2 then
           (case map_of g (the match2) of
              Some (lat, lon) \<Rightarrow> Some (lon, lat)
            | None \<Rightarrow> None)
         else None)"

text \<open>The coordinate stored under a key, in the order \<open>[lon, lat]\<close> in which
  \<open>findCoordinate\<close> returns it.\<close>

definition entry :: "gazetteer \<Rightarrow> jsstring \<Rightarrow> (jsnum \<times> jsnum) option" where
  "entry g k = map_option (\<lambda>(lat, lon). (lon, lat)) (map_of g k)"

section \<open>Viewport fitting (\<open>fitBounds\<close>)\<close>

text \<open>The zoom transform handed to \<open>zoomBehavior.transform\<close>:
  \<open>d3.zoomIdentity.translate(tx, ty).scale(k)\<close> maps a pixel \<open>(x, y)\<close> to
  \<open>(k * x + tx, k * y + ty)\<close>.\<close>

record ViewportTransform =
  scale_k :: jsnum
  trans_x :: jsnum
  trans_y :: jsnum

text \<open>What \<open>fitBounds\<close> reads from the component: whether each ref is set, the size of the
  container (\<open>getBoundingClientRect\<close>), and the projection held in \<open>projectionRef\<close>. The
  projection is the Mercator projection of the d3 library, which is not part of the sources
  and computes with \<open>Math.log\<close> and \<open>Math.tan\<close>; it is a field of the environment, and the
  properties below hold for every function in its place.\<close>

record map_env =
  svgReady :: bool
  containerReady :: bool
  zoomReady :: bool
  projectionReady :: bool
  gReady :: bool
  width :: real
  height :: real
  projection :: "jsnum \<times> jsnum \<Rightarrow> jsnum \<times> jsnum"

type_synonym bbox = "jsnum \<times> jsnum \<times> jsnum \<times> jsnum"

text \<open>The body of the \<open>forEach\<close> over the projected points; the box is
  \<open>(minX, maxX, minY, maxY)\<close>.\<close>

definition bbox_step :: "bbox \<Rightarrow> jsnum \<times> jsnum \<Rightarrow> bbox" where
  "bbox_step b p =
     (case b of (minX, maxX, minY, maxY) \<Rightarrow>
      case p of (x, y) \<Rightarrow>
        (if js_lt x minX then x else minX,
         if js_gt x maxX then x else maxX,
         if js_lt y minY then y else minY,
         if js_gt y maxY then y else maxY))"

definition bounding_box :: "(jsnum \<times> jsnum) list \<Rightarrow> bbox" where
  "bounding_box projectedCoords = foldl bbox_step (PosInf, NegInf, PosInf, NegInf) projectedCoords"

text \<open>
  \<open>fitBounds(coordinates, paddingPercent)\<close>, in double arithmetic. The viewport transform
  is passed in and returned: an early \<open>return\<close> gives it back as it is, otherwise the result
  is the target of the transition started on the svg element. The width and height of the
  container are doubles.
\<close>

definition fitBounds ::
  "map_env \<Rightarrow> (jsnum \<times> jsnum) list \<Rightarrow> jsnum \<Rightarrow> ViewportTransform \<Rightarrow> ViewportTransform" where
  "fitBounds env coordinates paddingPercent vt =
     (if \<not> svgReady env \<or> \<not> containerReady env \<or> \<not> zoomReady env \<or> coordinates = []
         \<or> \<not> projectionReady env then vt
      else
        let w = Fin (width env);
            h = Fin (height env);
            projectedCoords = map (projection env) coordinates
        in case bounding_box projectedCoords of (minX, maxX, minY, maxY) \<Rightarrow>
          if js_eq minX PosInf then vt
          else
            let boundsWidth = f64_sub maxX minX;
                boundsHeight = f64_sub maxY minY
            in if js_eq boundsWidth (Fin 0) \<and> js_eq boundsHeight (Fin 0) then
                 \<lparr>scale_k = Fin 8,
                  trans_x = f64_sub (f64_div w (Fin 2)) (f64_mul (Fin 8) minX),
                  trans_y = f64_sub (f64_div h (Fin 2)) (f64_mul (Fin 8) minY)\<rparr>
               else
                 let scaleX = f64_div
                       (f64_mul w (f64_sub (Fin 1) (f64_mul paddingPercent (Fin 2))))
                       boundsWidth;
                     scaleY = f64_div
                       (f64_mul h (f64_sub (Fin 1) (f64_mul paddingPercent (Fin 2))))
                       boundsHeight;
                     k0 = Math_min scaleX scaleY;
                     k1 = (if js_gt k0 (Fin 8) then Fin 8 else k0);
                     k2 = (if js_lt k1 lit_0_2 then lit_0_2 else k1)
                 in \<lparr>scale_k = k2,
                     trans_x = f64_sub (f64_div w (Fin 2))
                                 (f64_div (f64_mul k2 (f64_add minX maxX)) (Fin 2)),
                     trans_y = f64_sub (f64_div h (Fin 2))
                                 (f64_div (f64_mul k2 (f64_add minY maxY)) (Fin 2))\<rparr>)"

text \<open>
  The list \<open>areaCoords\<close> built by the early-warning effect: the origin, then for each area
  name its coordinate, pushed only if \<open>findCoordinate\<close> returned one.
\<close>

definition areaCoords :: "gazetteer \<Rightarrow> jsnum \<times> jsnum \<Rightarrow> jsstring list \<Rightarrow> (jsnum \<times> jsnum) list" where
  "areaCoords g origin areaNames = origin # List.map_filter (findCoordinate g) areaNames"

text \<open>
  The zoom part of the early-warning effect (\<open>EEW Logic\<close>): the guard of the effect, the
  lookup of the hypocentre with its early return, and the call of \<open>fitBounds\<close>.
\<close>

definition eew_zoom_effect ::
  "gazetteer \<Rightarrow> map_env \<Rightarrow> bool \<Rightarrow> bool \<Rightarrow> EEWState \<Rightarrow> ViewportTransform \<Rightarrow> ViewportTransform" where
  "eew_zoom_effect g env isAutoZoomEnabled japanGeoData eew vt =
     (if \<not> isActive eew \<or> \<not> truthy_str (occurredTime eew) \<or> \<not> truthy_str (hypocenterName eew)
         \<or> \<not> gReady env \<or> \<not> projectionReady env then vt
      else
        case findCoordinate g (the (hypocenterName eew)) of
          None \<Rightarrow> vt
        | Some origin \<Rightarrow>
            if isAutoZoomEnabled then
              (if areas eew \<noteq> [] \<and> japanGeoData
               then fitBounds env (areaCoords g origin (areas eew)) lit_0_35 vt
               else fitBounds env [origin] lit_0_35 vt)
            else vt)"

section \<open>The wave animation (\<open>animate\<close>)\<close>

definition V_P_WAVE :: real where
  "V_P_WAVE = 65 / 10"

definition V_S_WAVE :: real where
  "V_S_WAVE = 35 / 10"

definition KM_PER_DEG :: real where
  "KM_PER_DEG = 11132 / 100"

definition pRadiusKm :: "jsnum \<Rightarrow> jsnum" where
  "pRadiusKm elapsedSec = js_mul elapsedSec (Fin V_P_WAVE)"

definition sRadiusKm :: "jsnum \<Rightarrow> jsnum" where
  "sRadiusKm elapsedSec = js_mul elapsedSec (Fin V_S_WAVE)"

text \<open>One call of \<open>animate\<close>: either it only re-schedules itself, or it draws the two
  circles with the given radii in degrees and re-schedules itself.\<close>

datatype anim_frame = Idle | Draw (pRadiusDeg: jsnum) (sRadiusDeg: jsnum)

definition elapsed_seconds :: "jsnum \<Rightarrow> int \<Rightarrow> jsnum" where
  "elapsed_seconds startTime now = js_div (js_sub (Fin (real_of_int now)) startTime) (Fin 1000)"

text \<open>\<open>startTime\<close> is \<open>new Date(eew.occurredTime).getTime()\<close>, NaN for a text that is not a
  date; \<open>now\<close> is \<open>Date.now()\<close>.\<close>

definition animate :: "jsnum \<Rightarrow> int \<Rightarrow> anim_frame" where
  "animate startTime now =
     (let elapsedSec = elapsed_seconds startTime now in
      if js_lt elapsedSec (Fin 0) then Idle
      else Draw (js_div (pRadiusKm elapsedSec) (Fin KM_PER_DEG))
                (js_div (sRadiusKm elapsedSec) (Fin KM_PER_DEG)))"

section \<open>Concrete inputs\<close>

text \<open>Frames of one event \<open>E1\<close>, with the titles the feed sends for a warning and for a
  cancellation, the place name \<open>Tokyo-to\<close> (U+6771 U+4EAC U+90FD), the magnitude text
  \<open>7.2\<close> and the depth text \<open>10km\<close>.\<close>

definition str_Tokyo :: jsstring where
  "str_Tokyo = [0x6771, 0x4EAC, 0x90FD]"

definition title_warning :: jsstring where
  "title_warning =
     [0x7DCA, 0x6025, 0x5730, 0x9707, 0x901F, 0x5831, 0xFF08, 0x8B66, 0x5831, 0xFF09]"

definition title_cancel :: jsstring where
  "title_cancel =
     [0x7DCA, 0x6025, 0x5730, 0x9707, 0x901F, 0x5831, 0xFF08, 0x53D6, 0x6D88, 0xFF09]"

definition frame_E1_final :: WolfxEEWData where
  "frame_E1_final =
     \<lparr>Type = str_jma_eew, Title = title_warning, Hypocenter = str_Tokyo,
      Magnitude = [0x37, 0x2E, 0x32], Depth = Some [0x31, 0x30, 0x6B, 0x6D],
      MaxIntensity = [0x35], AnnouncedTime = [0x32, 0x30, 0x32, 0x34],
      EventID = [0x45, 0x31], isCancel = None, isFinalFlag = Some True\<rparr>"

definition frame_E1_update :: WolfxEEWData where
  "frame_E1_update = frame_E1_final\<lparr>isFinalFlag := None\<rparr>"

definition frame_E1_cancel :: WolfxEEWData where
  "frame_E1_cancel = frame_E1_final\<lparr>Title := title_cancel\<rparr>"




definition idle_state :: EEWState where
  "idle_state =
     \<lparr>isActive = False, isWarning = False, isFinal = Some False, hypocenterName = None,
      magnitude = None, depth = None, maxIntensity = None, areas = [],
      occurredTime = None, title = None, updatedTime = None\<rparr>"

definition warning_final_state :: EEWState where
  "warning_final_state =
     \<lparr>isActive = True, isWarning = True, isFinal = Some True, hypocenterName = Some str_Tokyo,
      magnitude = Some (Fin (72 / 10)), depth = Some (Fin 10), maxIntensity = Some [0x35],
      areas = [str_Tokyo], occurredTime = Some [0x32, 0x30, 0x32, 0x34],
      title = Some title_warning, updatedTime = Some 1000\<rparr>"

text \<open>Both feeds connected, nothing received yet.\<close>

definition connected_feed :: feed where
  "connected_feed =
     \<lparr>status = connected, closeCalled = False, reconnectDelays = [], connects = 1\<rparr>"

definition connected_app :: app where
  "connected_app =
     \<lparr>liveQuake = None, liveEEW = idle_state, p2p = connected_feed, wolfx = connected_feed\<rparr>"

text \<open>A table of three entries: \<open>Tokyo\<close> (U+6771 U+4EAC), \<open>Tokyo-to\<close> and \<open>Osaka-fu\<close>
  (U+5927 U+962A U+5E9C), in this key order.\<close>

definition str_Osaka :: jsstring where
  "str_Osaka = [0x5927, 0x962A, 0x5E9C]"

definition small_gazetteer :: gazetteer where
  "small_gazetteer =
     [([0x6771, 0x4EAC], (Fin 35, Fin 139)),
      (str_Tokyo, (Fin (3568 / 100), Fin (13969 / 100))),
      (str_Osaka, (Fin (3469 / 100), Fin (13552 / 100)))]"

text \<open>
  A projection for the examples, standing for the object held in \<open>projectionRef\<close>: 32
  pixels per degree, the map centre \<open>[137, 38]\<close> in the middle of a container of 1024 by 512
  pixels, each pixel coordinate rounded to a double. With it: every ref set, the identity
  zoom, two points 256 degrees of longitude apart and two points 8 degrees apart.
\<close>

definition sample_projection :: "jsnum \<times> jsnum \<Rightarrow> jsnum \<times> jsnum" where
  "sample_projection c =
     (case c of
        (Fin lon, Fin lat) \<Rightarrow> (fl (512 + 32 * (lon - 137)), fl (256 - 32 * (lat - 38)))
      | _ \<Rightarrow> (NaN, NaN))"

definition sample_env :: map_env where
  "sample_env =
     \<lparr>svgReady = True, containerReady = True, zoomReady = True, projectionReady = True,
      gReady = True, width = 1024, height = 512, projection = sample_projection\<rparr>"

definition identity_transform :: ViewportTransform where
  "identity_transform = \<lparr>scale_k = Fin 1, trans_x = Fin 0, trans_y = Fin 0\<rparr>"

definition far_apart_coords :: "(jsnum \<times> jsnum) list" where
  "far_apart_coords = [(Fin (- 119), Fin 39), (Fin 137, Fin 37)]"

definition nearby_coords :: "(jsnum \<times> jsnum) list" where
  "nearby_coords = [(Fin 133, Fin 39), (Fin 141, Fin 37)]"

text \<open>An active early warning whose hypocentre name is not in the table while its one
  target area is, and one whose hypocentre resolves while only one of its two areas
  does.\<close>

definition eew_unknown_hypocenter :: EEWState where
  "eew_unknown_hypocenter = warning_final_state\<lparr>hypocenterName := Some [0x58]\<rparr>"

definition eew_two_areas :: EEWState where
  "eew_two_areas = warning_final_state\<lparr>areas := [str_Osaka, [0x58]]\<rparr>"

section \<open>Properties of the early-warning state\<close>

lemma process_frames_snoc:
  "process_frames (fs @ [(d, now)]) s = handleLiveWolfxEEW d now (process_frames fs s)"
  by (induction fs arbitrary: s) auto

text \<open>
  C1, as stated, fails: a frame without the finality flag that follows a final frame of
  the same event sets \<open>isFinal\<close> back to false.
\<close>

theorem isFinal_regresses_counterexample:
  "\<not> is_cancel_frame frame_E1_final \<and> \<not> is_cancel_frame frame_E1_update \<and>
   EventID frame_E1_final = EventID frame_E1_update \<and>
   truthy (isFinalFlag frame_E1_final) \<and>
   isFinal (process_frames [(frame_E1_final, 1000)] idle_state) = Some True \<and>
   isFinal (process_frames [(frame_E1_final, 1000), (frame_E1_update, 2000)] idle_state)
     = Some False"
  by (simp add: is_cancel_frame_def js_includes_def frame_E1_final_def frame_E1_update_def
      title_warning_def str_cancel_def sublist_code(3) handleLiveWolfxEEW_def)

text \<open>
  C1, amended: after a non-empty sequence of non-cancel frames, \<open>isFinal\<close> is the finality
  flag of the last frame processed, since every frame replaces the state as a whole and the
  event id is not read. Hence \<open>isFinal\<close> is true only if some frame carried the flag.
\<close>

theorem isFinal_follows_last_frame:
  assumes "fs \<noteq> []" and "\<forall>f \<in> set fs. \<not> is_cancel_frame (fst f)"
  shows "isFinal (process_frames fs s) = Some (truthy (isFinalFlag (fst (last fs)))) \<and>
         (isFinal (process_frames fs s) = Some True \<longrightarrow>
            (\<exists>f \<in> set fs. truthy (isFinalFlag (fst f))))"
proof -
  from assms(1) obtain fs' d now where fs: "fs = fs' @ [(d, now)]"
    by (metis surj_pair rev_exhaust)
  with assms(2) have nc: "\<not> is_cancel_frame d" by simp
  have eq: "isFinal (process_frames fs s) = Some (truthy (isFinalFlag (fst (last fs))))"
    using nc unfolding fs process_frames_snoc
    by (simp add: handleLiveWolfxEEW_def is_cancel_frame_def)
  moreover have "last fs \<in> set fs"
    using assms(1) by simp
  ultimately show ?thesis by auto
qed

theorem isFinal_follows_last_frame_witness:
  "[(frame_E1_final, 1000::int), (frame_E1_update, 2000)] \<noteq> [] \<and>
   \<not> is_cancel_frame frame_E1_final \<and> \<not> is_cancel_frame frame_E1_update \<and>
   isFinal (process_frames [(frame_E1_final, 1000), (frame_E1_update, 2000)] idle_state)
     = Some (truthy (isFinalFlag frame_E1_update))"
proof -
  have h: "\<forall>f \<in> set [(frame_E1_final, 1000::int), (frame_E1_update, 2000)].
             \<not> is_cancel_frame (fst f)"
    by (simp add: is_cancel_frame_def js_includes_def frame_E1_final_def frame_E1_update_def
        title_warning_def str_cancel_def sublist_code(3))
  show ?thesis
    using h isFinal_follows_last_frame [OF _ h, of idle_state]
    by simp
qed

text \<open>
  C2: a frame whose cancel flag is set or whose title contains the cancel marker yields a
  state with \<open>isActive = false\<close> and no target areas, whatever the previous state.
\<close>

theorem cancel_frame_deactivates:
  "is_cancel_frame d \<Longrightarrow>
     isActive (handleLiveWolfxEEW d now prev) = False \<and>
     areas (handleLiveWolfxEEW d now prev) = []"
  by (simp add: is_cancel_frame_def handleLiveWolfxEEW_def)

theorem cancel_frame_deactivates_witness:
  "is_cancel_frame frame_E1_cancel \<and> isActive warning_final_state \<and>
   isWarning warning_final_state \<and> isFinal warning_final_state = Some True \<and>
   isActive (handleLiveWolfxEEW frame_E1_cancel 5000 warning_final_state) = False \<and>
   areas (handleLiveWolfxEEW frame_E1_cancel 5000 warning_final_state) = []"
proof -
  have h: "is_cancel_frame frame_E1_cancel"
    by (simp add: is_cancel_frame_def js_includes_def frame_E1_final_def frame_E1_cancel_def
        title_cancel_def str_cancel_def sublist_code(3))
  show ?thesis
    using h cancel_frame_deactivates [OF h, of 5000 warning_final_state]
    by (simp add: warning_final_state_def)
qed

subsection \<open>Magnitude and depth\<close>
















subsection \<open>The staleness timeout\<close>

text \<open>
  C3, as stated, fails: an active state with \<open>isFinal = true\<close> whose last update is more than
  20 seconds old is cleared by the tick.
\<close>

theorem final_state_timed_out_counterexample:
  "isActive warning_final_state \<and> isFinal warning_final_state = Some True \<and>
   updatedTime warning_final_state = Some 1000 \<and>
   isActive (timeout_tick live 21001 warning_final_state) = False \<and>
   areas (timeout_tick live 21001 warning_final_state) = []"
  by (simp add: warning_final_state_def timeout_tick_def timeout_timer_installed_def
      timeout_callback_def)

lemma run_ticks_inactive: "\<not> isActive s \<Longrightarrow> run_ticks mode ticks s = s"
  by (induction ticks) (simp_all add: timeout_tick_def timeout_timer_installed_def)

lemma run_ticks_stale:
  assumes "updatedTime s = Some t" and "t \<noteq> 0" and "isActive s"
    and "\<exists>now \<in> set ticks. now - t > 20000"
  shows "run_ticks live ticks s = s\<lparr>isActive := False, areas := []\<rparr>"
  using assms
proof (induction ticks arbitrary: s)
  case Nil
  then show ?case by simp
next
  case (Cons now ticks)
  show ?case
  proof (cases "now - t > 20000")
    case True
    with Cons.prems have "timeout_tick live now s = s\<lparr>isActive := False, areas := []\<rparr>"
      by (simp add: timeout_tick_def timeout_timer_installed_def timeout_callback_def)
    then show ?thesis
      by (simp add: run_ticks_inactive)
  next
    case False
    with Cons.prems have same: "timeout_tick live now s = s"
      by (simp add: timeout_tick_def timeout_timer_installed_def timeout_callback_def)
    from False Cons.prems have "\<exists>now \<in> set ticks. now - t > 20000" by auto
    from Cons.IH [OF Cons.prems(1-3) this] same show ?thesis by simp
  qed
qed

text \<open>
  C3, amended: the check runs only in live mode while the state is active, whether or not
  the state is final. For a state with a non-zero update time \<open>t\<close>, a tick at clock value
  \<open>now\<close> sets \<open>isActive\<close> to false and clears the areas exactly when the mode is live, the
  state is active and \<open>now - t > 20000\<close>; otherwise the state is unchanged. So an active
  state that sees a tick later than 20 seconds after its last update ends inactive with its
  areas cleared and its other fields, \<open>isFinal\<close> among them, as they were.
\<close>

theorem staleness_timeout:
  assumes "updatedTime s = Some t" and "t \<noteq> 0"
  shows "timeout_tick mode now s =
           (if mode = live \<and> isActive s \<and> now - t > 20000
            then s\<lparr>isActive := False, areas := []\<rparr> else s) \<and>
         (isActive s \<and> (\<exists>now \<in> set ticks. now - t > 20000) \<longrightarrow>
            run_ticks live ticks s = s\<lparr>isActive := False, areas := []\<rparr>)"
  using assms run_ticks_stale [OF assms]
  by (simp add: timeout_tick_def timeout_timer_installed_def timeout_callback_def)

theorem staleness_timeout_witness:
  "updatedTime warning_final_state = Some 1000 \<and> (1000::int) \<noteq> 0 \<and>
   timeout_tick live 21001 warning_final_state
     = warning_final_state\<lparr>isActive := False, areas := []\<rparr> \<and>
   timeout_tick live 21000 warning_final_state = warning_final_state \<and>
   timeout_tick simulation 21001 warning_final_state = warning_final_state \<and>
   run_ticks live [20500, 21500, 22500] warning_final_state
     = warning_final_state\<lparr>isActive := False, areas := []\<rparr>"
proof -
  have a: "isActive warning_final_state" and u: "updatedTime warning_final_state = Some 1000"
    by (simp_all add: warning_final_state_def)
  have n: "(1000::int) \<noteq> 0" by simp
  note t1 = staleness_timeout [OF u n, of live 21001 "[20500, 21500, 22500]"]
  note t2 = staleness_timeout [OF u n, of live 21000 "[]"]
  note t3 = staleness_timeout [OF u n, of simulation 21001 "[]"]
  from t1 a have "timeout_tick live 21001 warning_final_state
     = warning_final_state\<lparr>isActive := False, areas := []\<rparr>"
    and "run_ticks live [20500, 21500, 22500] warning_final_state
     = warning_final_state\<lparr>isActive := False, areas := []\<rparr>"
    by simp_all
  moreover from t2 a have "timeout_tick live 21000 warning_final_state = warning_final_state"
    by simp
  moreover from t3 have "timeout_tick simulation 21001 warning_final_state = warning_final_state"
    by simp
  ultimately show ?thesis using u by simp
qed

section \<open>Properties of the feeds\<close>

lemma reconnect_cycles:
  "reconnectDelays (((feed_connect \<circ> feed_onclose) ^^ n) f)
     = reconnectDelays f @ replicate n 5000"
  by (induction n) (simp_all add: feed_connect_def feed_onclose_def replicate_append_same)

text \<open>
  C4, as stated, fails: after a payload that does not parse, either feed is still
  connected, \<open>close\<close> has not been called and no reconnection is scheduled.
\<close>

theorem parse_failure_no_reconnect_counterexample:
  "status (wolfx connected_app) = connected \<and>
   status (wolfx (fst (wolfx_onmessage SyntaxError 1000 connected_app))) = connected \<and>
   \<not> closeCalled (wolfx (fst (wolfx_onmessage SyntaxError 1000 connected_app))) \<and>
   reconnectDelays (wolfx (fst (wolfx_onmessage SyntaxError 1000 connected_app))) = [] \<and>
   status (p2p (fst (p2p_onmessage SyntaxError connected_app))) = connected \<and>
   \<not> closeCalled (p2p (fst (p2p_onmessage SyntaxError connected_app))) \<and>
   reconnectDelays (p2p (fst (p2p_onmessage SyntaxError connected_app))) = []"
  by (simp add: wolfx_onmessage_def p2p_onmessage_def connected_app_def connected_feed_def)

text \<open>
  C4, amended: a payload that fails to parse changes nothing in either feed (the
  early-warning handler catches the exception, the report handler lets it escape); the
  error event calls \<open>close\<close>; the close event marks the feed disconnected and schedules one
  reconnection after 5000 ms, and it does so again after any number of reconnections.
\<close>

theorem parse_failure_keeps_connection:
  "p2p_onmessage SyntaxError st = (st, Some UncaughtSyntaxError) \<and>
   wolfx_onmessage SyntaxError now st = (st, None) \<and>
   closeCalled (p2p (p2p_onerror st)) \<and> closeCalled (wolfx (wolfx_onerror st)) \<and>
   status (p2p (p2p_onclose st)) = disconnected \<and>
   status (wolfx (wolfx_onclose st)) = disconnected \<and>
   reconnectDelays (p2p (p2p_onclose st)) = reconnectDelays (p2p st) @ [5000] \<and>
   reconnectDelays (wolfx (wolfx_onclose st)) = reconnectDelays (wolfx st) @ [5000] \<and>
   reconnectDelays (feed_onclose (((feed_connect \<circ> feed_onclose) ^^ n) f))
     = reconnectDelays f @ replicate (Suc n) 5000"
proof -
  have "reconnectDelays (feed_onclose (((feed_connect \<circ> feed_onclose) ^^ n) f))
          = reconnectDelays f @ replicate (Suc n) 5000"
    using reconnect_cycles [of n f]
    by (simp add: feed_onclose_def replicate_append_same)
  then show ?thesis
    by (simp add: p2p_onmessage_def wolfx_onmessage_def p2p_onerror_def wolfx_onerror_def
        p2p_onclose_def wolfx_onclose_def feed_onerror_def feed_onclose_def)
qed

section \<open>Properties of the coordinate resolution\<close>

lemma find_Some_split:
  "find P xs = Some k \<longleftrightarrow> (\<exists>ps ss. xs = ps @ k # ss \<and> P k \<and> (\<forall>p \<in> set ps. \<not> P p))"
proof (induction xs)
  case Nil
  then show ?case by simp
next
  case (Cons x xs)
  show ?case
  proof (cases "P x")
    case True
    have "(\<exists>ps ss. x # xs = ps @ k # ss \<and> P k \<and> (\<forall>p \<in> set ps. \<not> P p)) \<longleftrightarrow> x = k"
    proof
      assume "\<exists>ps ss. x # xs = ps @ k # ss \<and> P k \<and> (\<forall>p \<in> set ps. \<not> P p)"
      then obtain ps ss where e: "x # xs = ps @ k # ss" and n: "\<forall>p \<in> set ps. \<not> P p" by blast
      show "x = k"
      proof (cases ps)
        case Nil
        with e show ?thesis by simp
      next
        case (Cons a as)
        with e n True show ?thesis by simp
      qed
    next
      assume "x = k"
      with True have "x # xs = [] @ k # xs \<and> P k \<and> (\<forall>p \<in> set []. \<not> P p)" by simp
      then show "\<exists>ps ss. x # xs = ps @ k # ss \<and> P k \<and> (\<forall>p \<in> set ps. \<not> P p)" by blast
    qed
    with True show ?thesis by auto
  next
    case False
    have "(\<exists>ps ss. x # xs = ps @ k # ss \<and> P k \<and> (\<forall>p \<in> set ps. \<not> P p))
          \<longleftrightarrow> (\<exists>ps ss. xs = ps @ k # ss \<and> P k \<and> (\<forall>p \<in> set ps. \<not> P p))"
    proof
      assume "\<exists>ps ss. x # xs = ps @ k # ss \<and> P k \<and> (\<forall>p \<in> set ps. \<not> P p)"
      then obtain ps ss where e: "x # xs = ps @ k # ss" and pk: "P k"
        and n: "\<forall>p \<in> set ps. \<not> P p" by blast
      show "\<exists>ps ss. xs = ps @ k # ss \<and> P k \<and> (\<forall>p \<in> set ps. \<not> P p)"
      proof (cases ps)
        case Nil
        with e pk False show ?thesis by simp
      next
        case (Cons a as)
        with e n pk have "xs = as @ k # ss \<and> P k \<and> (\<forall>p \<in> set as. \<not> P p)" by simp
        then show ?thesis by blast
      qed
    next
      assume "\<exists>ps ss. xs = ps @ k # ss \<and> P k \<and> (\<forall>p \<in> set ps. \<not> P p)"
      then obtain ps ss where "xs = ps @ k # ss" "P k" "\<forall>p \<in> set ps. \<not> P p" by blast
      with False have "x # xs = (x # ps) @ k # ss \<and> P k \<and> (\<forall>p \<in> set (x # ps). \<not> P p)"
        by simp
      then show "\<exists>ps ss. x # xs = ps @ k # ss \<and> P k \<and> (\<forall>p \<in> set ps. \<not> P p)" by blast
    qed
    with False Cons.IH show ?thesis by simp
  qed
qed

lemma find_Some_mem: "find P xs = Some k \<Longrightarrow> k \<in> set xs"
  by (metis find_Some_iff nth_mem)

lemma find_eq_self: "find (\<lambda>k. k = name) keys = (if name \<in> set keys then Some name else None)"
  by (induction keys) auto

lemma key_entry: "k \<in> set (Object_keys g) \<Longrightarrow> \<exists>lat lon. map_of g k = Some (lat, lon)"
  unfolding Object_keys_def
  by (metis (no_types) domD dom_map_of_conv_image_fst list.set_map surj_pair)

lemma findCoordinate_cases:
  assumes ne: "[] \<notin> set (Object_keys g)"
  shows "findCoordinate g name =
     (if name \<in> set (Object_keys g) then entry g name
      else case find (\<lambda>k. js_startsWith name k) (Object_keys g) of
             Some k \<Rightarrow> entry g k
           | None \<Rightarrow> (case find (\<lambda>k. js_includes name k) (Object_keys g) of
                        Some k \<Rightarrow> entry g k | None \<Rightarrow> None))"
proof -
  have t: "\<And>P k. find P (Object_keys g) = Some k \<Longrightarrow> k \<noteq> []"
    using ne by (metis find_Some_iff nth_mem)
  show ?thesis
  proof (cases "name \<in> set (Object_keys g)")
    case True
    then have "name \<noteq> []" using ne by auto
    then show ?thesis using True
      by (auto simp: findCoordinate_def Let_def find_eq_self entry_def split: option.splits)
  next
    case False
    show ?thesis
    proof (cases "find (\<lambda>k. js_startsWith name k) (Object_keys g)")
      case None
      show ?thesis
      proof (cases "find (\<lambda>k. js_includes name k) (Object_keys g)")
        case None2: None
        show ?thesis using False None None2
          by (simp add: findCoordinate_def Let_def find_eq_self)
      next
        case (Some k)
        with t have "k \<noteq> []" by blast
        then show ?thesis using False None Some
          by (auto simp: findCoordinate_def Let_def find_eq_self entry_def split: option.splits)
      qed
    next
      case (Some k)
      with t have "k \<noteq> []" by blast
      then show ?thesis using False Some
        by (auto simp: findCoordinate_def Let_def find_eq_self entry_def split: option.splits)
    qed
  qed
qed

text \<open>
  C5: on a table without an empty key, \<open>findCoordinate\<close> answers with the entry of the name
  itself when the name is a key; otherwise with the entry of the first key, in key order,
  that is a prefix of the name; otherwise with the entry of the first key contained in the
  name; and with \<open>null\<close> exactly when no key is contained in the name. The caller's list
  of coordinates is then the same as if the unresolved name were not there.
\<close>

theorem findCoordinate_priority:
  assumes "[] \<notin> set (Object_keys g)"
  shows "(name \<in> set (Object_keys g) \<longrightarrow>
            findCoordinate g name = entry g name \<and> findCoordinate g name \<noteq> None) \<and>
         (name \<notin> set (Object_keys g) \<longrightarrow>
            (\<forall>ps k ss. Object_keys g = ps @ k # ss \<and> js_startsWith name k \<and>
                 (\<forall>p \<in> set ps. \<not> js_startsWith name p) \<longrightarrow>
               findCoordinate g name = entry g k \<and> findCoordinate g name \<noteq> None)) \<and>
         ((\<forall>k \<in> set (Object_keys g). \<not> js_startsWith name k) \<longrightarrow>
            (\<forall>ps k ss. Object_keys g = ps @ k # ss \<and> js_includes name k \<and>
                 (\<forall>p \<in> set ps. \<not> js_includes name p) \<longrightarrow>
               findCoordinate g name = entry g k \<and> findCoordinate g name \<noteq> None)) \<and>
         (findCoordinate g name = None \<longleftrightarrow>
            (\<forall>k \<in> set (Object_keys g). \<not> js_includes name k)) \<and>
         (findCoordinate g name = None \<longrightarrow>
            areaCoords g origin (pre @ name # post) = areaCoords g origin (pre @ post))"
proof -
  note fc = findCoordinate_cases [OF assms, of name]
  have some: "\<And>k. k \<in> set (Object_keys g) \<Longrightarrow> entry g k \<noteq> None"
    using key_entry by (fastforce simp: entry_def)
  have self: "js_startsWith name name" "js_includes name name"
    by (simp_all add: js_startsWith_def js_includes_def)
  have pre_inc: "\<And>k. js_startsWith name k \<Longrightarrow> js_includes name k"
    by (simp add: js_startsWith_def js_includes_def)
  have c1: "name \<in> set (Object_keys g) \<longrightarrow>
              findCoordinate g name = entry g name \<and> findCoordinate g name \<noteq> None"
    using fc some by simp
  have c2: "findCoordinate g name = entry g k \<and> findCoordinate g name \<noteq> None"
    if "name \<notin> set (Object_keys g)" and sp: "Object_keys g = ps @ k # ss"
      and "js_startsWith name k" and "\<forall>p \<in> set ps. \<not> js_startsWith name p" for ps k ss
  proof -
    have "find (\<lambda>k. js_startsWith name k) (Object_keys g) = Some k"
      using that by (subst find_Some_split) blast
    moreover have "k \<in> set (Object_keys g)" using sp by simp
    ultimately show ?thesis using fc that(1) some by simp
  qed
  have c3: "findCoordinate g name = entry g k \<and> findCoordinate g name \<noteq> None"
    if np: "\<forall>k \<in> set (Object_keys g). \<not> js_startsWith name k"
      and sp: "Object_keys g = ps @ k # ss"
      and "js_includes name k" and "\<forall>p \<in> set ps. \<not> js_includes name p" for ps k ss
  proof -
    have nk: "name \<notin> set (Object_keys g)" using np self by blast
    have "find (\<lambda>k. js_startsWith name k) (Object_keys g) = None"
      using np by (simp add: find_None_iff)
    moreover have "find (\<lambda>k. js_includes name k) (Object_keys g) = Some k"
      using that by (subst find_Some_split) blast
    moreover have "k \<in> set (Object_keys g)" using sp by simp
    ultimately show ?thesis using fc nk some by simp
  qed
  have c4: "findCoordinate g name = None \<longleftrightarrow>
              (\<forall>k \<in> set (Object_keys g). \<not> js_includes name k)"
  proof
    assume n: "findCoordinate g name = None"
    have nk: "name \<notin> set (Object_keys g)"
    proof
      assume k: "name \<in> set (Object_keys g)"
      with fc have "findCoordinate g name = entry g name" by simp
      with some [OF k] n show False by simp
    qed
    have np: "find (\<lambda>k. js_startsWith name k) (Object_keys g) = None"
    proof (cases "find (\<lambda>k. js_startsWith name k) (Object_keys g)")
      case None
      then show ?thesis .
    next
      case (Some k')
      then have "k' \<in> set (Object_keys g)" by (rule find_Some_mem)
      from some [OF this] n fc nk Some show ?thesis by simp
    qed
    have "find (\<lambda>k. js_includes name k) (Object_keys g) = None"
    proof (cases "find (\<lambda>k. js_includes name k) (Object_keys g)")
      case None
      then show ?thesis .
    next
      case (Some k')
      then have "k' \<in> set (Object_keys g)" by (rule find_Some_mem)
      from some [OF this] n fc nk np Some show ?thesis by simp
    qed
    then show "\<forall>k \<in> set (Object_keys g). \<not> js_includes name k"
      by (simp add: find_None_iff)
  next
    assume a: "\<forall>k \<in> set (Object_keys g). \<not> js_includes name k"
    then have "name \<notin> set (Object_keys g)" using self by blast
    moreover have "find (\<lambda>k. js_startsWith name k) (Object_keys g) = None"
      using a pre_inc by (auto simp: find_None_iff)
    moreover have "find (\<lambda>k. js_includes name k) (Object_keys g) = None"
      using a by (simp add: find_None_iff)
    ultimately show "findCoordinate g name = None" using fc by simp
  qed
  have c5: "findCoordinate g name = None \<longrightarrow>
              areaCoords g origin (pre @ name # post) = areaCoords g origin (pre @ post)"
    by (simp add: areaCoords_def List.map_filter_def)
  show ?thesis
    using c1 c2 c3 c4 c5 by blast
qed

lemma small_gazetteer_lookups:
  "findCoordinate small_gazetteer [0x58] = None"
  "findCoordinate small_gazetteer str_Tokyo = Some (Fin (13969 / 100), Fin (3568 / 100))"
  "findCoordinate small_gazetteer str_Osaka = Some (Fin (13552 / 100), Fin (3469 / 100))"
  by (simp_all add: findCoordinate_def Object_keys_def small_gazetteer_def str_Tokyo_def
      str_Osaka_def js_startsWith_def js_includes_def sublist_code(3))

theorem findCoordinate_priority_witness:
  "[] \<notin> set (Object_keys small_gazetteer) \<and>
   findCoordinate small_gazetteer str_Tokyo = Some (Fin (13969 / 100), Fin (3568 / 100)) \<and>
   findCoordinate small_gazetteer (str_Tokyo @ [0x5317, 0x90E8]) = Some (Fin 139, Fin 35) \<and>
   findCoordinate small_gazetteer (0x58 # str_Osaka)
     = Some (Fin (13552 / 100), Fin (3469 / 100)) \<and>
   findCoordinate small_gazetteer [0x58] = None \<and>
   areaCoords small_gazetteer (Fin 139, Fin 35) [str_Osaka, [0x58]]
     = [(Fin 139, Fin 35), (Fin (13552 / 100), Fin (3469 / 100))]"
proof -
  have h: "[] \<notin> set (Object_keys small_gazetteer)"
    by (simp add: Object_keys_def small_gazetteer_def str_Tokyo_def str_Osaka_def)
  have e: "findCoordinate small_gazetteer str_Tokyo = Some (Fin (13969 / 100), Fin (3568 / 100))"
    "findCoordinate small_gazetteer (str_Tokyo @ [0x5317, 0x90E8]) = Some (Fin 139, Fin 35)"
    "findCoordinate small_gazetteer (0x58 # str_Osaka)
       = Some (Fin (13552 / 100), Fin (3469 / 100))"
    "findCoordinate small_gazetteer [0x58] = None"
    by (simp_all add: findCoordinate_def Object_keys_def small_gazetteer_def str_Tokyo_def
        str_Osaka_def js_startsWith_def js_includes_def sublist_code(3))
  have ac: "areaCoords small_gazetteer (Fin 139, Fin 35) [str_Osaka, [0x58]]
     = [(Fin 139, Fin 35), (Fin (13552 / 100), Fin (3469 / 100))]"
    by (simp add: areaCoords_def List.map_filter_def small_gazetteer_lookups)
  note th = findCoordinate_priority [OF h, of "[0x58]" "(Fin 139, Fin 35)" "[str_Osaka]" "[]"]
  from th e(4) have "areaCoords small_gazetteer (Fin 139, Fin 35) ([str_Osaka] @ [0x58] # [])
     = areaCoords small_gazetteer (Fin 139, Fin 35) ([str_Osaka] @ [])"
    by blast
  with h e ac show ?thesis by simp
qed

section \<open>Properties of the rounding\<close>

lemma round_even_cases: "round_even y = \<lfloor>y\<rfloor> \<or> round_even y = \<lfloor>y\<rfloor> + 1"
  by (simp add: round_even_def Let_def)

lemma round_even_nonneg: "0 \<le> y \<Longrightarrow> 0 \<le> round_even y"
proof -
  assume "0 \<le> y"
  then have "0 \<le> \<lfloor>y\<rfloor>" by simp
  with round_even_cases [of y] show ?thesis by linarith
qed

lemma round_even_ge1: "1 \<le> y \<Longrightarrow> 1 \<le> round_even y"
proof -
  assume "1 \<le> y"
  then have "1 \<le> \<lfloor>y\<rfloor>" by simp
  with round_even_cases [of y] show ?thesis by linarith
qed

lemma round_even_le: "of_int (round_even y) \<le> y + 1"
proof -
  have a: "of_int \<lfloor>y\<rfloor> \<le> y" by (rule of_int_floor_le)
  from round_even_cases [of y]
  have "real_of_int (round_even y) = of_int \<lfloor>y\<rfloor> \<or>
        real_of_int (round_even y) = of_int \<lfloor>y\<rfloor> + 1"
    by auto
  with a show ?thesis by linarith
qed

lemma round_even_ge: "y - 1 \<le> of_int (round_even y)"
proof -
  have f1: "y - 1 \<le> of_int \<lfloor>y\<rfloor>" by linarith
  have f2: "real_of_int \<lfloor>y\<rfloor> \<le> real_of_int (round_even y)"
    using round_even_cases [of y] by auto
  from f1 f2 show ?thesis by linarith
qed

lemma fl_quantum_pos: "0 < fl_quantum x"
  by (simp add: fl_quantum_def)

lemma fl_nonneg:
  assumes "0 \<le> x"
  shows "fl x = PosInf \<or> (\<exists>r. fl x = Fin r \<and> 0 \<le> r)"
proof (cases "x = 0")
  case True
  then show ?thesis by (simp add: fl_def)
next
  case False
  with assms have pos: "0 < x" by simp
  have "0 \<le> round_even (x / fl_quantum x)"
    using pos fl_quantum_pos [of x] by (intro round_even_nonneg) simp
  then have "0 \<le> of_int (round_even (x / fl_quantum x)) * fl_quantum x"
    using fl_quantum_pos [of x] by simp
  then show ?thesis
    using pos False unfolding fl_def Let_def by (simp del: power_numeral)
qed

lemma powr_powi: "(2::real) powr (of_int k) = 2 powi k"
  by (simp add: powr_real_of_int' power_int_def)

lemma fl_exponent_eq:
  assumes "2 powi e \<le> \<bar>x\<bar>" and "\<bar>x\<bar> < 2 powi (e + 1)"
  shows "fl_exponent x = max e (- 1022)"
proof -
  have pos: "0 < \<bar>x\<bar>"
    using assms(1) zero_less_power_int [of "2::real" e] by linarith
  have "\<lfloor>log 2 \<bar>x\<bar>\<rfloor> = e"
    using assms pos
    by (subst floor_log_eq_powr_iff) (simp_all add: powr_powi [symmetric])
  then show ?thesis by (simp add: fl_exponent_def)
qed

text \<open>The value of \<open>fl\<close> at a number of known binary exponent in the normal range.\<close>

lemma fl_eval:
  assumes "2 powi e \<le> \<bar>x\<bar>" and "\<bar>x\<bar> < 2 powi (e + 1)"
    and "- 1022 \<le> e" and "e \<le> 1022"
  shows "fl x = Fin (of_int (round_even (x * 2 powi (52 - e))) * 2 powi (e - 52))"
proof -
  have "0 < \<bar>x\<bar>"
    using assms(1) zero_less_power_int [of "2::real" e] by linarith
  then have x0: "x \<noteq> 0" by simp
  define q :: real where "q = 2 powi (e - 52)"
  have q: "0 < q" by (simp add: q_def)
  have fq: "fl_quantum x = q"
    using fl_exponent_eq [OF assms(1,2)] assms(3) by (simp add: fl_quantum_def q_def max_def)
  have dq: "x / q = x * 2 powi (52 - e)"
    by (simp add: q_def power_int_diff field_simps)
  define r where "r = of_int (round_even (x / q)) * q"
  have qe: "q \<le> 2 powi e"
    unfolding q_def by (rule power_int_increasing) simp_all
  have up: "r \<le> x + q"
  proof -
    have "r \<le> (x / q + 1) * q"
      unfolding r_def using round_even_le [of "x / q"] q by (intro mult_right_mono) simp_all
    moreover have "(x / q + 1) * q = x + q"
      using q by (simp add: field_simps)
    ultimately show ?thesis by linarith
  qed
  have lo: "x - q \<le> r"
  proof -
    have "(x / q - 1) * q \<le> r"
      unfolding r_def using q by (intro mult_right_mono [OF round_even_ge]) simp
    moreover have "(x / q - 1) * q = x - q"
      using q by (simp add: field_simps)
    ultimately show ?thesis by linarith
  qed
  have "(2::real) powi (e + 1) = 2 * 2 powi e"
    by (simp add: power_int_add)
  with assms(2) qe have b1: "\<bar>x\<bar> + q < 3 * 2 powi e" by linarith
  have "(2::real) powi e \<le> 2 powi 1022"
    using assms(4) by (intro power_int_increasing) simp_all
  then have "3 * (2::real) powi e \<le> 3 * 2 ^ 1022" by simp
  also have "\<dots> < (2::real) ^ 1024" by simp
  finally have b2: "3 * (2::real) powi e < 2 ^ 1024" .
  from up lo have "\<bar>r\<bar> \<le> \<bar>x\<bar> + q" using q by linarith
  with b1 b2 have "\<not> 2 ^ 1024 \<le> \<bar>r\<bar>" by linarith
  then have "fl x = Fin r"
    using x0 unfolding fl_def Let_def fq r_def [symmetric] by (simp del: power_numeral)
  then show ?thesis unfolding r_def dq by (simp add: q_def)
qed

lemma fl_quantum_le:
  assumes "2 powi (- 1022) \<le> \<bar>x\<bar>"
  shows "fl_quantum x \<le> \<bar>x\<bar>"
proof -
  have pos: "0 < \<bar>x\<bar>"
    using assms zero_less_power_int [of "2::real" "- 1022"] by linarith
  have "2 powr (of_int \<lfloor>log 2 \<bar>x\<bar>\<rfloor>) \<le> 2 powr (log 2 \<bar>x\<bar>)"
    by (subst powr_le_cancel_iff) simp_all
  then have a: "2 powi \<lfloor>log 2 \<bar>x\<bar>\<rfloor> \<le> \<bar>x\<bar>"
    using pos by (simp add: powr_powi)
  have "2 powi (fl_exponent x) \<le> \<bar>x\<bar>"
    using a assms by (simp add: fl_exponent_def max_def)
  moreover have "fl_quantum x \<le> 2 powi (fl_exponent x)"
    unfolding fl_quantum_def by (rule power_int_increasing) simp_all
  ultimately show ?thesis by linarith
qed

text \<open>A positive number of ordinary magnitude rounds to a positive double.\<close>

lemma fl_pos:
  assumes "2 powi (- 1022) \<le> x" and "x < 2 ^ 1023"
  shows "\<exists>r. fl x = Fin r \<and> 0 < r"
proof -
  have x: "0 < x"
    using assms(1) zero_less_power_int [of "2::real" "- 1022"] by linarith
  define q where "q = fl_quantum x"
  have q: "0 < q" "q \<le> x"
    using fl_quantum_pos [of x] fl_quantum_le [of x] assms(1) x by (simp_all add: q_def)
  define r where "r = of_int (round_even (x / q)) * q"
  have "1 \<le> x / q" using q by simp
  then have "1 \<le> round_even (x / q)" by (rule round_even_ge1)
  then have "1 * q \<le> of_int (round_even (x / q)) * q"
    using q(1) by (intro mult_right_mono) simp_all
  then have rpos: "0 < r" using q(1) by (simp add: r_def)
  have "of_int (round_even (x / q)) * q \<le> (x / q + 1) * q"
    using round_even_le [of "x / q"] q(1) by (intro mult_right_mono) simp_all
  also have "\<dots> = x + q" using q(1) by (simp add: field_simps)
  also have "\<dots> \<le> 2 * x" using q(2) by simp
  also have "\<dots> < 2 ^ 1024" using assms(2) by simp
  finally have "r < 2 ^ 1024" by (simp add: r_def)
  with rpos have "\<not> 2 ^ 1024 \<le> \<bar>r\<bar>" by simp
  then have "fl x = Fin r"
    using x unfolding fl_def Let_def q_def [symmetric] r_def [symmetric]
    by (simp del: power_numeral)
  with rpos show ?thesis by blast
qed

text \<open>The doubles of the literals \<open>0.35\<close> and \<open>0.2\<close>, and of \<open>1 - 0.35 * 2\<close> as the code
  computes it: \<open>0.30000000000000004\<close>.\<close>

lemma lit_0_35: "lit_0_35 = Fin (3152519739159347 / 9007199254740992)"
  unfolding lit_0_35_def
  by (subst fl_eval [where e = "- 2"]) (simp_all add: round_even_def Let_def)

lemma lit_0_2: "lit_0_2 = Fin (3602879701896397 / 18014398509481984)"
  unfolding lit_0_2_def
  by (subst fl_eval [where e = "- 3"]) (simp_all add: round_even_def Let_def)

lemma pad_factor:
  "f64_sub (Fin 1) (f64_mul lit_0_35 (Fin 2))
     = Fin (1351079888211149 / 4503599627370496)"
proof -
  have a: "f64_mul lit_0_35 (Fin 2) = Fin (3152519739159347 / 4503599627370496)"
    unfolding lit_0_35 f64_mul_def rnd_def
    by simp (subst fl_eval [where e = "- 1"], simp_all add: round_even_def Let_def)
  show ?thesis
    unfolding a f64_sub_def rnd_def js_sub_def
    by simp (subst fl_eval [where e = "- 2"], simp_all add: round_even_def Let_def)
qed

text \<open>The rounding error: half a quantum, that is, a relative error of \<open>2^-53\<close> in the normal
  range and an absolute error of \<open>2^-1075\<close> below it.\<close>

lemma round_even_half: "\<bar>of_int (round_even y) - y\<bar> \<le> 1 / 2"
proof -
  define d where "d = y - of_int \<lfloor>y\<rfloor>"
  have d: "0 \<le> d" "d < 1" unfolding d_def by linarith+
  have y: "y = of_int \<lfloor>y\<rfloor> + d" by (simp add: d_def)
  consider "d < 1 / 2" | "1 / 2 < d" | "d = 1 / 2" by linarith
  then show ?thesis
  proof cases
    case 1
    then have "round_even y = \<lfloor>y\<rfloor>" by (simp add: round_even_def Let_def d_def)
    with 1 d y show ?thesis by linarith
  next
    case 2
    then have "round_even y = \<lfloor>y\<rfloor> + 1" by (simp add: round_even_def Let_def d_def)
    then have "real_of_int (round_even y) = of_int \<lfloor>y\<rfloor> + 1" by simp
    with 2 d y show ?thesis by linarith
  next
    case 3
    have "real_of_int (round_even y) = of_int \<lfloor>y\<rfloor> \<or>
          real_of_int (round_even y) = of_int \<lfloor>y\<rfloor> + 1"
      using round_even_cases [of y] by auto
    with 3 y show ?thesis by linarith
  qed
qed

lemma fl_quantum_normal:
  assumes "2 powi (- 1022) \<le> \<bar>x\<bar>"
  shows "fl_quantum x \<le> 2 powi (- 52) * \<bar>x\<bar>"
proof -
  have pos: "0 < \<bar>x\<bar>"
    using assms zero_less_power_int [of "2::real" "- 1022"] by linarith
  have "2 powr (of_int \<lfloor>log 2 \<bar>x\<bar>\<rfloor>) \<le> 2 powr (log 2 \<bar>x\<bar>)"
    by (subst powr_le_cancel_iff) simp_all
  then have a: "2 powi \<lfloor>log 2 \<bar>x\<bar>\<rfloor> \<le> \<bar>x\<bar>"
    using pos by (simp add: powr_powi)
  have e: "2 powi (fl_exponent x) \<le> \<bar>x\<bar>"
    using a assms by (simp add: fl_exponent_def max_def)
  have "fl_quantum x = 2 powi (- 52) * 2 powi (fl_exponent x)"
    unfolding fl_quantum_def by (simp add: power_int_diff power_int_minus field_simps)
  also have "\<dots> \<le> 2 powi (- 52) * \<bar>x\<bar>"
    using e by (intro mult_left_mono) simp_all
  finally show ?thesis .
qed

lemma fl_quantum_subnormal:
  assumes "x \<noteq> 0" and "\<bar>x\<bar> < 2 powi (- 1022)"
  shows "fl_quantum x = 2 powi (- 1074)"
proof -
  have pos: "0 < \<bar>x\<bar>" using assms(1) by simp
  have "\<bar>x\<bar> < 2 powr (of_int (- 1022))"
    using assms(2) by (simp only: powr_powi)
  then have "log 2 \<bar>x\<bar> < of_int (- 1022)"
    using pos by (subst log_less_iff) simp_all
  then have "\<lfloor>log 2 \<bar>x\<bar>\<rfloor> < - 1022"
    by (simp add: floor_less_iff)
  then have "fl_exponent x = - 1022"
    by (simp add: fl_exponent_def max_def)
  then show ?thesis by (simp add: fl_quantum_def)
qed

lemma fl_quantum_bound:
  "x \<noteq> 0 \<Longrightarrow> fl_quantum x \<le> 2 powi (- 52) * \<bar>x\<bar> + 2 powi (- 1074)"
proof (cases "2 powi (- 1022) \<le> \<bar>x\<bar>")
  case True
  from fl_quantum_normal [OF this] zero_less_power_int [of "2::real" "- 1074"]
  show ?thesis by linarith
next
  case False
  assume "x \<noteq> 0"
  with False have "fl_quantum x = 2 powi (- 1074)"
    by (intro fl_quantum_subnormal) simp_all
  moreover have "0 \<le> 2 powi (- 52) * \<bar>x\<bar>" by simp
  ultimately show ?thesis by linarith
qed

lemma fl_half_quantum:
  assumes "\<bar>x\<bar> < 2 ^ 1023"
  shows "\<exists>r. fl x = Fin r \<and> \<bar>r - x\<bar> \<le> fl_quantum x / 2"
proof (cases "x = 0")
  case True
  then show ?thesis using fl_quantum_pos [of 0] by (simp add: fl_def)
next
  case False
  define q where "q = fl_quantum x"
  have q: "0 < q" using fl_quantum_pos [of x] by (simp add: q_def)
  define n where "n = real_of_int (round_even (x / q))"
  define r where "r = n * q"
  have "\<bar>n - x / q\<bar> * q \<le> 1 / 2 * q"
    unfolding n_def using q by (intro mult_right_mono round_even_half) simp
  moreover have "\<bar>n - x / q\<bar> * q = \<bar>(n - x / q) * q\<bar>"
    using q by (simp add: abs_mult)
  moreover have "(n - x / q) * q = r - x"
    using q by (simp add: r_def field_simps)
  ultimately have err: "\<bar>r - x\<bar> \<le> q / 2" by simp
  have "(2::real) powi (- 52) \<le> 1" "(2::real) powi (- 1074) \<le> 1"
    by (simp_all add: power_int_minus inverse_le_1_iff)
  with fl_quantum_bound [OF False] have "q \<le> 1 * \<bar>x\<bar> + 1"
    unfolding q_def
    by (meson add_mono abs_ge_zero mult_right_mono order_trans)
  moreover have "(1::real) \<le> 2 ^ 1023" by simp
  ultimately have "\<bar>r\<bar> < 2 * 2 ^ 1023" using err assms by linarith
  then have "\<not> 2 ^ 1024 \<le> \<bar>r\<bar>" by simp
  then have "fl x = Fin r"
    using False unfolding fl_def Let_def q_def [symmetric] n_def [symmetric] r_def [symmetric]
    by (simp del: power_numeral)
  with err show ?thesis unfolding q_def by blast
qed

lemma fl_err:
  assumes "\<bar>x\<bar> < 2 ^ 1023"
  shows "\<exists>r. fl x = Fin r \<and> \<bar>r - x\<bar> \<le> 2 powi (- 53) * \<bar>x\<bar> + 2 powi (- 1075)"
proof (cases "x = 0")
  case True
  then show ?thesis by (simp add: fl_def)
next
  case False
  from fl_half_quantum [OF assms] obtain r where
    r: "fl x = Fin r" "\<bar>r - x\<bar> \<le> fl_quantum x / 2" by blast
  have h: "(2::real) powi (- 52) / 2 = 2 powi (- 53)" "(2::real) powi (- 1074) / 2 = 2 powi (- 1075)"
    by (simp_all add: power_int_minus)
  have "fl_quantum x / 2 \<le> (2 powi (- 52) * \<bar>x\<bar> + 2 powi (- 1074)) / 2"
    using fl_quantum_bound [OF False] by simp
  also have "\<dots> = 2 powi (- 53) * \<bar>x\<bar> + 2 powi (- 1075)"
    using h by (simp add: add_divide_distrib)
  finally show ?thesis using r by (intro exI [of _ r]) linarith
qed

lemma fl_err_normal:
  assumes "2 powi (- 1022) \<le> \<bar>x\<bar>" and "\<bar>x\<bar> < 2 ^ 1023"
  shows "\<exists>r. fl x = Fin r \<and> \<bar>r - x\<bar> \<le> 2 powi (- 53) * \<bar>x\<bar>"
proof -
  from fl_half_quantum [OF assms(2)] obtain r where
    r: "fl x = Fin r" "\<bar>r - x\<bar> \<le> fl_quantum x / 2" by blast
  have h: "(2::real) powi (- 52) / 2 = 2 powi (- 53)"
    by (simp add: power_int_minus)
  have "fl_quantum x / 2 \<le> (2 powi (- 52) * \<bar>x\<bar>) / 2"
    using fl_quantum_normal [OF assms(1)] by simp
  also have "\<dots> = 2 powi (- 53) * \<bar>x\<bar>"
    using h by simp
  finally show ?thesis using r by (intro exI [of _ r]) linarith
qed

section \<open>Properties of the viewport fitting\<close>

lemma bbox_fold_fin:
  "foldl bbox_step (Fin a, Fin b, Fin c, Fin d) (map (\<lambda>(x, y). (Fin x, Fin y)) ps) =
     (Fin (fold min (map fst ps) a), Fin (fold max (map fst ps) b),
      Fin (fold min (map snd ps) c), Fin (fold max (map snd ps) d))"
proof (induction ps arbitrary: a b c d)
  case Nil
  then show ?case by simp
next
  case (Cons p ps)
  obtain x y where p: "p = (x, y)" by (cases p)
  have step: "bbox_step (Fin a, Fin b, Fin c, Fin d) (Fin x, Fin y) =
                (Fin (min x a), Fin (max x b), Fin (min y c), Fin (max y d))"
    by (simp add: bbox_step_def js_gt_def min_def max_def)
  show ?case
    by (simp add: p step Cons.IH)
qed

lemma bounding_box_fin:
  assumes "ps \<noteq> []"
  shows "bounding_box (map (\<lambda>(x, y). (Fin x, Fin y)) ps) =
     (Fin (Min (fst ` set ps)), Fin (Max (fst ` set ps)),
      Fin (Min (snd ` set ps)), Fin (Max (snd ` set ps)))"
proof -
  from assms obtain x y qs where ps: "ps = (x, y) # qs"
    by (cases ps) auto
  have first: "bbox_step (PosInf, NegInf, PosInf, NegInf) (Fin x, Fin y) =
                 (Fin x, Fin x, Fin y, Fin y)"
    by (simp add: bbox_step_def js_gt_def)
  have mn: "\<And>f. Min (f ` set ps) = fold min (map f qs) (f (x, y))"
    and mx: "\<And>f. Max (f ` set ps) = fold max (map f qs) (f (x, y))"
    using Min.set_eq_fold [of _ "map _ qs"] Max.set_eq_fold [of _ "map _ qs"]
    by (simp_all add: ps)
  show ?thesis
    unfolding mn mx
    by (simp add: bounding_box_def ps first bbox_fold_fin)
qed

lemma bbox_all_NaN:
  "\<forall>p \<in> set pts. fst p = NaN \<Longrightarrow>
     \<exists>c d. foldl bbox_step (PosInf, NegInf, c0, d0) pts = (PosInf, NegInf, c, d)"
proof (induction pts arbitrary: c0 d0)
  case Nil
  then show ?case by simp
next
  case (Cons p pts)
  obtain x y where p: "p = (x, y)" by (cases p)
  with Cons.prems have x: "x = NaN" by simp
  have "\<exists>c d. bbox_step (PosInf, NegInf, c0, d0) p = (PosInf, NegInf, c, d)"
    by (simp add: bbox_step_def p x js_gt_def)
  then obtain c d where "bbox_step (PosInf, NegInf, c0, d0) p = (PosInf, NegInf, c, d)"
    by blast
  with Cons.IH [of c d] Cons.prems show ?case by simp
qed

lemma fitBounds_nothing_valid:
  assumes "coords = [] \<or> (\<forall>c \<in> set coords. fst (projection env c) = NaN)"
  shows "fitBounds env coords pad vt = vt"
proof (cases "coords = []")
  case True
  then show ?thesis by (simp add: fitBounds_def)
next
  case False
  with assms have "\<forall>p \<in> set (map (projection env) coords). fst p = NaN" by simp
  from bbox_all_NaN [OF this] obtain c d where
    "bounding_box (map (projection env) coords) = (PosInf, NegInf, c, d)"
    unfolding bounding_box_def by blast
  then show ?thesis
    by (simp add: fitBounds_def Let_def js_eq_def)
qed

lemma f64_fin:
  "f64_add (Fin a) (Fin b) = fl (a + b)"
  "f64_sub (Fin a) (Fin b) = fl (a - b)"
  "f64_mul (Fin a) (Fin b) = fl (a * b)"
  "b \<noteq> 0 \<Longrightarrow> f64_div (Fin a) (Fin b) = fl (a / b)"
  by (simp_all add: f64_add_def f64_sub_def f64_mul_def f64_div_def rnd_def js_sub_def)

lemma fl_zero: "fl 0 = Fin 0"
  by (simp add: fl_def)

lemma fitBounds_single_point:
  assumes "svgReady env" "containerReady env" "zoomReady env" "projectionReady env"
    and "projection env c = (Fin x, Fin y)"
  shows "scale_k (fitBounds env [c] pad vt) = Fin 8"
  using assms
  by (simp add: fitBounds_def bounding_box_def bbox_step_def js_gt_def js_eq_def f64_fin
      fl_zero Let_def)

text \<open>The result of \<open>fitBounds\<close> on finite projected points that are not all one point.\<close>

lemma fitBounds_fit:
  fixes env coords pad vt ps
  defines "minX \<equiv> Min (fst ` set ps)" and "maxX \<equiv> Max (fst ` set ps)"
    and "minY \<equiv> Min (snd ` set ps)" and "maxY \<equiv> Max (snd ` set ps)"
  defines "c \<equiv> f64_sub (Fin 1) (f64_mul pad (Fin 2))"
  defines "m \<equiv> Math_min
      (f64_div (f64_mul (Fin (width env)) c) (f64_sub (Fin maxX) (Fin minX)))
      (f64_div (f64_mul (Fin (height env)) c) (f64_sub (Fin maxY) (Fin minY)))"
  defines "k1 \<equiv> (if js_gt m (Fin 8) then Fin 8 else m)"
  defines "k2 \<equiv> (if js_lt k1 (lit_0_2) then lit_0_2 else k1)"
  assumes ready: "svgReady env" "containerReady env" "zoomReady env" "projectionReady env"
    and proj: "map (projection env) coords = map (\<lambda>(x, y). (Fin x, Fin y)) ps"
    and ne: "coords \<noteq> []"
    and nd: "\<not> (f64_sub (Fin maxX) (Fin minX) = Fin 0 \<and> f64_sub (Fin maxY) (Fin minY) = Fin 0)"
  shows "fitBounds env coords pad vt =
           \<lparr>scale_k = k2,
            trans_x = f64_sub (f64_div (Fin (width env)) (Fin 2))
                        (f64_div (f64_mul k2 (f64_add (Fin minX) (Fin maxX))) (Fin 2)),
            trans_y = f64_sub (f64_div (Fin (height env)) (Fin 2))
                        (f64_div (f64_mul k2 (f64_add (Fin minY) (Fin maxY))) (Fin 2))\<rparr>"
proof -
  have psne: "ps \<noteq> []" using proj ne by auto
  have bb: "bounding_box (map (projection env) coords) = (Fin minX, Fin maxX, Fin minY, Fin maxY)"
    unfolding proj minX_def maxX_def minY_def maxY_def by (rule bounding_box_fin [OF psne])
  have mx: "js_eq (Fin minX) PosInf = False"
    by (simp add: js_eq_def)
  have nd': "(js_eq (f64_sub (Fin maxX) (Fin minX)) (Fin 0) \<and>
              js_eq (f64_sub (Fin maxY) (Fin minY)) (Fin 0)) = False"
    using nd by (auto simp: js_eq_def)
  show ?thesis
    apply (simp only: fitBounds_def Let_def)
    apply (simp only: ready ne simp_thms if_False)
    apply (simp only: bb prod.case mx if_False nd')
    apply (simp only: c_def [symmetric] m_def [symmetric])
    apply (simp only: k1_def [symmetric])
    apply (simp only: k2_def [symmetric])
    done
qed

lemma fit_factor_range:
  assumes "0 < a" and "bw = PosInf \<or> (\<exists>b. bw = Fin b \<and> 0 \<le> b)"
  shows "f64_div (Fin a) bw = PosInf \<or> (\<exists>s. f64_div (Fin a) bw = Fin s \<and> 0 \<le> s)"
proof -
  from assms(2) consider "bw = PosInf" | "bw = Fin 0" | b where "bw = Fin b" "0 < b"
    by (metis less_eq_real_def)
  then show ?thesis
  proof cases
    case 1
    then show ?thesis by (simp add: f64_div_def rnd_def fl_zero)
  next
    case 2
    then show ?thesis using assms(1) by (simp add: f64_div_def rnd_def)
  next
    case 3
    then have "f64_div (Fin a) bw = fl (a / b)" by (simp add: f64_fin)
    moreover have "0 \<le> a / b" using assms(1) 3 by simp
    ultimately show ?thesis using fl_nonneg by simp
  qed
qed

lemma Math_min_range:
  assumes "x = PosInf \<or> (\<exists>s. x = Fin s \<and> 0 \<le> s)"
    and "y = PosInf \<or> (\<exists>s. y = Fin s \<and> 0 \<le> s)"
  shows "(Math_min x y = PosInf \<or> (\<exists>s. Math_min x y = Fin s \<and> 0 \<le> s)) \<and>
         \<not> js_lt x (Math_min x y) \<and> \<not> js_lt y (Math_min x y)"
  using assms by (auto simp: Math_min_def)

lemma clamp_range:
  assumes "k0 = PosInf \<or> (\<exists>s. k0 = Fin s \<and> 0 \<le> s)"
  defines "k \<equiv> (if js_gt k0 (Fin 8) then Fin 8
                 else if js_lt k0 lit_0_2 then lit_0_2 else k0)"
  shows "\<exists>kv. k = Fin kv \<and> 2 / 10 \<le> kv \<and> kv \<le> 8"
    and "\<not> js_lt k lit_0_2"
    and "\<not> js_lt k0 lit_0_2 \<Longrightarrow> \<not> js_lt k0 k"
    and "(if js_lt (if js_gt k0 (Fin 8) then Fin 8 else k0) lit_0_2 then lit_0_2
          else (if js_gt k0 (Fin 8) then Fin 8 else k0)) = k"
proof -
  define lo :: real where "lo = 3602879701896397 / 18014398509481984"
  have lo: "lit_0_2 = Fin lo" "2 / 10 \<le> lo" "lo \<le> 8"
    by (simp_all add: lo_def lit_0_2)
  show "\<exists>kv. k = Fin kv \<and> 2 / 10 \<le> kv \<and> kv \<le> 8"
  proof (cases "js_gt k0 (Fin 8)")
    case True
    then show ?thesis by (simp add: k_def)
  next
    case False
    show ?thesis
    proof (cases "js_lt k0 lit_0_2")
      case True
      with False lo(2,3) show ?thesis unfolding k_def lo(1) by simp
    next
      case nl: False
      from assms(1) False obtain s where s: "k0 = Fin s"
        by (auto simp: js_gt_def)
      with False nl have "lo \<le> s" "s \<le> 8"
        unfolding lo(1) by (simp_all add: js_gt_def)
      with lo(2) have "2 / 10 \<le> s \<and> s \<le> 8" by linarith
      with False nl s show ?thesis by (simp add: k_def)
    qed
  qed
  show "\<not> js_lt k lit_0_2"
    using assms(1) lo(2,3) unfolding k_def lo(1) by (auto simp: js_gt_def)
  show "\<not> js_lt k0 k" if "\<not> js_lt k0 lit_0_2"
    using assms(1) lo(2,3) that unfolding k_def lo(1) by (auto simp: js_gt_def)
  show "(if js_lt (if js_gt k0 (Fin 8) then Fin 8 else k0) lit_0_2 then lit_0_2
          else (if js_gt k0 (Fin 8) then Fin 8 else k0)) = k"
    using lo(2,3) unfolding k_def lo(1) by (auto simp: js_gt_def)
qed

text \<open>
  One axis of the fit, for a scale \<open>kv\<close> between 0.1 and 8 that does not exceed the computed
  fit factor of the axis: the scaled extent of the box is at most 0.3 of the viewport extent,
  and the computed translation puts the scaled centre of the box at the centre of the
  viewport, each up to rounding.
\<close>

lemma fit_axis_extent:
  fixes w lo hi kv :: real
  assumes w: "2 powi (- 1000) \<le> w" "w \<le> 2 ^ 1000"
    and box: "lo \<le> hi" "\<bar>lo\<bar> \<le> 2 ^ 1000" "\<bar>hi\<bar> \<le> 2 ^ 1000"
    and k: "1 / 10 \<le> kv" "kv \<le> 8"
    and fit: "\<not> js_lt (f64_div (f64_mul (Fin w) (Fin (1351079888211149 / 4503599627370496)))
                          (f64_sub (Fin hi) (Fin lo))) (Fin kv)"
  shows "kv * (hi - lo) \<le> 3 / 10 * w + 4 / 9007199254740992 * w"
proof -
  define \<eta> :: real where "\<eta> = 2 powi (- 1075)"
  define T :: real where "T = 2 ^ 1023"
  define B :: real where "B = 2 ^ 1000"
  define cv :: real where "cv = 1351079888211149 / 4503599627370496"
  have u: "(2::real) powi (- 53) = 1 / 9007199254740992"
    by (simp add: power_int_minus)
  note err = fl_err [unfolded u, folded \<eta>_def T_def]
  have TB: "64 * B + 64 \<le> T" "1 \<le> B"
    by (simp_all add: T_def B_def)
  have \<eta>0: "0 < \<eta>" by (simp add: \<eta>_def)
  have "(2::real) powi (- 1075) = 2 powi (- 1000) / 2 ^ 75"
    by (simp add: power_int_minus field_simps flip: power_add)
  then have "\<eta> \<le> w / 2 ^ 75"
    using w(1) unfolding \<eta>_def by (simp add: divide_right_mono)
  then have \<eta>w: "\<eta> \<le> w / 37778931862957161709568" by simp
  have w0: "0 < w" using \<eta>w \<eta>0 by linarith
  have wB: "w \<le> B" using w(2) by (simp add: B_def)
  define D where "D = hi - lo"
  have D: "0 \<le> D" "D \<le> 2 * B"
    using box unfolding D_def B_def by linarith+
  have "\<bar>w * cv\<bar> < T"
    using w0 wB TB unfolding cv_def by simp
  from err [OF this] obtain a where
    a: "fl (w * cv) = Fin a" "\<bar>a - w * cv\<bar> \<le> \<bar>w * cv\<bar> / 9007199254740992 + \<eta>"
    by auto
  have wcv: "\<bar>w * cv\<bar> = w * (1351079888211149 / 4503599627370496)"
    using w0 by (simp add: cv_def abs_mult)
  have a_up: "a \<le> w * (1351079888211149 / 4503599627370496) * (1 + 1 / 9007199254740992) + \<eta>"
    using a(2) wcv w0 unfolding cv_def by argo
  have a0: "0 < a"
    using a(2) wcv w0 \<eta>w \<eta>0 unfolding cv_def by linarith
  have "\<bar>D\<bar> < T" using D TB by linarith
  from err [OF this] obtain b where
    b: "fl D = Fin b" "\<bar>b - D\<bar> \<le> \<bar>D\<bar> / 9007199254740992 + \<eta>"
    by auto
  from fl_nonneg [OF D(1)] b(1) have b0: "0 \<le> b" by auto
  have sc: "f64_div (f64_mul (Fin w) (Fin cv)) (f64_sub (Fin hi) (Fin lo))
              = f64_div (Fin a) (Fin b)"
    by (simp add: f64_fin a(1) b(1) [unfolded D_def])
  have kb: "kv * b \<le> a * (1 + 1 / 9007199254740992)"
  proof (cases "b = 0")
    case True
    then show ?thesis using a0 by simp
  next
    case False
    with b0 have bp: "0 < b" by simp
    define J where "J = a / b"
    have J0: "0 < J" using a0 bp by (simp add: J_def)
    have Jb: "J * b = a" using bp by (simp add: J_def)
    have scJ: "f64_div (Fin a) (Fin b) = fl J"
      using False by (simp add: f64_fin J_def)
    have le: "kv \<le> J * (1 + 1 / 9007199254740992)"
    proof (cases "J < T")
      case False
      then have "8 \<le> J" using TB by linarith
      with k(2) J0 show ?thesis by argo
    next
      case True
      with J0 have "\<bar>J\<bar> < T" by simp
      show ?thesis
      proof (cases "2 powi (- 1022) \<le> J")
        case True
        with J0 have "2 powi (- 1022) \<le> \<bar>J\<bar>" by simp
        from fl_err_normal [OF this \<open>\<bar>J\<bar> < T\<close> [unfolded T_def], unfolded u]
        obtain sx where sx: "fl J = Fin sx" "\<bar>sx - J\<bar> \<le> 1 / 9007199254740992 * \<bar>J\<bar>"
          by auto
        from fit sc scJ sx(1) have "kv \<le> sx" by (simp add: cv_def)
        with sx(2) J0 show ?thesis by argo
      next
        case False
        have "(2::real) powi (- 1022) \<le> 1 / 100"
          by (simp add: power_int_minus field_simps)
        with False have Js: "J < 1 / 100" by linarith
        have "\<eta> \<le> 1 / 100"
          unfolding \<eta>_def by (simp add: power_int_minus field_simps)
        from err [OF \<open>\<bar>J\<bar> < T\<close>] obtain sx where
          sx: "fl J = Fin sx" "\<bar>sx - J\<bar> \<le> \<bar>J\<bar> / 9007199254740992 + \<eta>"
          by auto
        from fit sc scJ sx(1) have "kv \<le> sx" by (simp add: cv_def)
        with sx(2) J0 Js \<open>\<eta> \<le> 1 / 100\<close> k(1) show ?thesis by argo
      qed
    qed
    have "kv * b \<le> J * (1 + 1 / 9007199254740992) * b"
      using le bp by (intro mult_right_mono) simp_all
    also have "\<dots> = a * (1 + 1 / 9007199254740992)"
      using Jb by (simp add: algebra_simps)
    finally show ?thesis .
  qed
  define Q where "Q = kv * D"
  define kvb where "kvb = kv * b"
  have k0: "0 \<le> kv" using k(1) by linarith
  have "D - b \<le> D / 9007199254740992 + \<eta>"
    using b(2) D(1) by linarith
  then have "kv * (D - b) \<le> kv * (D / 9007199254740992 + \<eta>)"
    using k0 by (intro mult_left_mono) simp_all
  moreover have "kv * (D - b) = Q - kvb"
    by (simp add: Q_def kvb_def algebra_simps)
  moreover have "kv * (D / 9007199254740992 + \<eta>) = Q / 9007199254740992 + kv * \<eta>"
    by (simp add: Q_def algebra_simps)
  moreover have "kv * \<eta> \<le> 8 * \<eta>"
    using k(2) \<eta>0 by (intro mult_right_mono) simp_all
  ultimately have q1: "Q - kvb \<le> Q / 9007199254740992 + 8 * \<eta>" by linarith
  from kb have q2: "kvb \<le> a * (1 + 1 / 9007199254740992)" by (simp add: kvb_def)
  from q1 q2 a_up \<eta>w \<eta>0 w0 have "Q \<le> 3 / 10 * w + 4 / 9007199254740992 * w"
    by argo
  then show ?thesis by (simp add: Q_def D_def)
qed

lemma fit_axis_centre:
  fixes w lo hi kv :: real
  assumes w: "2 powi (- 1000) \<le> w" "w \<le> 2 ^ 1000"
    and box: "\<bar>lo\<bar> \<le> 2 ^ 1000" "\<bar>hi\<bar> \<le> 2 ^ 1000"
    and k: "0 \<le> kv" "kv \<le> 8"
  shows "\<exists>t. f64_sub (f64_div (Fin w) (Fin 2))
                (f64_div (f64_mul (Fin kv) (f64_add (Fin lo) (Fin hi))) (Fin 2)) = Fin t \<and>
             \<bar>t - (w / 2 - kv * (lo + hi) / 2)\<bar>
               \<le> 2 / 9007199254740992 * w + 3 / 9007199254740992 * (kv * \<bar>lo + hi\<bar>)"
proof -
  define \<eta> :: real where "\<eta> = 2 powi (- 1075)"
  define T :: real where "T = 2 ^ 1023"
  define B :: real where "B = 2 ^ 1000"
  have u: "(2::real) powi (- 53) = 1 / 9007199254740992"
    by (simp add: power_int_minus)
  note err = fl_err [unfolded u, folded \<eta>_def T_def]
  have TB: "64 * B + 64 \<le> T" "1 \<le> B"
    by (simp_all add: T_def B_def)
  have \<eta>0: "0 < \<eta>" by (simp add: \<eta>_def)
  have \<eta>1: "\<eta> \<le> 1" unfolding \<eta>_def by (simp add: power_int_minus field_simps)
  have "(2::real) powi (- 1075) = 2 powi (- 1000) / 2 ^ 75"
    by (simp add: power_int_minus field_simps flip: power_add)
  then have "\<eta> \<le> w / 2 ^ 75"
    using w(1) unfolding \<eta>_def by (simp add: divide_right_mono)
  then have \<eta>w: "\<eta> \<le> w / 37778931862957161709568" by simp
  have w0: "0 < w" using \<eta>w \<eta>0 by linarith
  have wB: "w \<le> B" using w(2) by (simp add: B_def)
  define S where "S = lo + hi"
  define P where "P = kv * \<bar>S\<bar>"
  define c0 where "c0 = kv * S"
  have Sb: "\<bar>S\<bar> \<le> 2 * B" using box unfolding S_def B_def by linarith
  have P0: "0 \<le> P" using k(1) by (simp add: P_def)
  have "kv * \<bar>S\<bar> \<le> 8 * \<bar>S\<bar>" using k(2) by (intro mult_right_mono) simp_all
  with Sb have Pb: "P \<le> 16 * B" unfolding P_def by linarith
  have c0P: "\<bar>c0\<bar> = P" using k(1) by (simp add: c0_def P_def abs_mult)
  have "\<bar>S\<bar> < T" using Sb TB by linarith
  from err [OF this] obtain s where
    s: "fl S = Fin s" "\<bar>s - S\<bar> \<le> \<bar>S\<bar> / 9007199254740992 + \<eta>"
    by auto
  define z where "z = kv * s"
  have "kv * \<bar>s - S\<bar> \<le> kv * (\<bar>S\<bar> / 9007199254740992 + \<eta>)"
    using s(2) k(1) by (intro mult_left_mono) simp_all
  moreover have "kv * \<bar>s - S\<bar> = \<bar>z - c0\<bar>"
    using k(1) by (simp add: z_def c0_def abs_mult flip: right_diff_distrib)
  moreover have "kv * (\<bar>S\<bar> / 9007199254740992 + \<eta>) = P / 9007199254740992 + kv * \<eta>"
    by (simp add: P_def algebra_simps)
  moreover have "kv * \<eta> \<le> 8 * \<eta>"
    using k(2) \<eta>0 by (intro mult_right_mono) simp_all
  ultimately have zc: "\<bar>z - c0\<bar> \<le> P / 9007199254740992 + 8 * \<eta>" by linarith
  have zb: "\<bar>z\<bar> \<le> P + P / 9007199254740992 + 8 * \<eta>"
    using zc c0P by linarith
  have "\<bar>z\<bar> < T" using zb Pb P0 TB \<eta>1 by linarith
  from err [OF this] obtain m1 where
    m1: "fl z = Fin m1" "\<bar>m1 - z\<bar> \<le> \<bar>z\<bar> / 9007199254740992 + \<eta>"
    by auto
  have m1b: "\<bar>m1\<bar> \<le> P + 3 * P / 9007199254740992 + 10 * \<eta>"
    using m1(2) zb P0 \<eta>0 by linarith
  have "\<bar>m1 / 2\<bar> < T" using m1b Pb P0 TB \<eta>1 by argo
  from err [OF this] obtain h2 where
    h2: "fl (m1 / 2) = Fin h2" "\<bar>h2 - m1 / 2\<bar> \<le> \<bar>m1 / 2\<bar> / 9007199254740992 + \<eta>"
    by auto
  have "\<bar>m1 / 2\<bar> = \<bar>m1\<bar> / 2" by simp
  with h2(2) have h2': "\<bar>h2 - m1 / 2\<bar> \<le> \<bar>m1\<bar> / 2 / 9007199254740992 + \<eta>" by simp
  have e_h2: "\<bar>h2 - c0 / 2\<bar> \<le> 2 * P / 9007199254740992 + 7 * \<eta>"
    using h2' m1(2) zc zb m1b P0 \<eta>0 by linarith
  have h2b: "\<bar>h2\<bar> \<le> P / 2 + 2 * P / 9007199254740992 + 7 * \<eta>"
    using e_h2 c0P by linarith
  have "\<bar>w / 2\<bar> < T" using w0 wB TB by simp
  from err [OF this] obtain h1 where
    h1: "fl (w / 2) = Fin h1" "\<bar>h1 - w / 2\<bar> \<le> \<bar>w / 2\<bar> / 9007199254740992 + \<eta>"
    by auto
  have "\<bar>w / 2\<bar> = w / 2" using w0 by simp
  with h1(2) have e_h1: "\<bar>h1 - w / 2\<bar> \<le> w / 2 / 9007199254740992 + \<eta>" by simp
  have h1b: "\<bar>h1\<bar> \<le> w / 2 + w / 2 / 9007199254740992 + \<eta>"
    using e_h1 w0 by linarith
  have "\<bar>h1 - h2\<bar> < T" using h1b h2b wB Pb P0 w0 TB \<eta>1 by linarith
  from err [OF this] obtain t where
    t: "fl (h1 - h2) = Fin t" "\<bar>t - (h1 - h2)\<bar> \<le> \<bar>h1 - h2\<bar> / 9007199254740992 + \<eta>"
    by auto
  have e_t: "\<bar>t - (h1 - h2)\<bar>
      \<le> (w / 2 + P / 2) / 9007199254740992 + (w + P) / 9007199254740992 / 1000 + 2 * \<eta>"
    using t(2) h1b h2b P0 w0 \<eta>0 by argo
  have E: "\<bar>t - (w / 2 - c0 / 2)\<bar> \<le> 2 / 9007199254740992 * w + 3 / 9007199254740992 * P"
    using e_t e_h1 e_h2 \<eta>w \<eta>0 P0 w0 by argo
  have "f64_sub (f64_div (Fin w) (Fin 2))
          (f64_div (f64_mul (Fin kv) (f64_add (Fin lo) (Fin hi))) (Fin 2)) = Fin t"
    by (simp add: f64_fin s(1) [unfolded S_def] m1(1) [unfolded z_def] h2(1) h1(1) t(1))
  moreover have "kv * (lo + hi) / 2 = c0 / 2" by (simp add: c0_def S_def)
  ultimately show ?thesis
    using E unfolding P_def S_def by (intro exI [of _ t]) simp
qed

lemma fit_axis:
  fixes w lo hi kv :: real
  assumes w: "2 powi (- 1000) \<le> w" "w \<le> 2 ^ 1000"
    and box: "lo \<le> hi" "\<bar>lo\<bar> \<le> 2 ^ 1000" "\<bar>hi\<bar> \<le> 2 ^ 1000"
    and k: "1 / 10 \<le> kv" "kv \<le> 8"
    and fit: "\<not> js_lt (f64_div (f64_mul (Fin w) (Fin (1351079888211149 / 4503599627370496)))
                          (f64_sub (Fin hi) (Fin lo))) (Fin kv)"
  shows "\<exists>t. f64_sub (f64_div (Fin w) (Fin 2))
                (f64_div (f64_mul (Fin kv) (f64_add (Fin lo) (Fin hi))) (Fin 2)) = Fin t \<and>
             (\<forall>x. lo \<le> x \<and> x \<le> hi \<longrightarrow>
                \<bar>kv * x + t - w / 2\<bar>
                  \<le> 15 / 100 * w + 2 powi (- 50) * (w + kv * \<bar>lo + hi\<bar>))"
proof -
  have k0: "0 \<le> kv" using k(1) by linarith
  from fit_axis_centre [OF w box(2,3) k0 k(2)] obtain t where
    t: "f64_sub (f64_div (Fin w) (Fin 2))
          (f64_div (f64_mul (Fin kv) (f64_add (Fin lo) (Fin hi))) (Fin 2)) = Fin t"
       "\<bar>t - (w / 2 - kv * (lo + hi) / 2)\<bar>
               \<le> 2 / 9007199254740992 * w + 3 / 9007199254740992 * (kv * \<bar>lo + hi\<bar>)"
    by blast
  note ext = fit_axis_extent [OF w box k fit]
  have w0: "0 < w"
    using w(1) zero_less_power_int [of "2::real" "- 1000"] by linarith
  define P where "P = kv * \<bar>lo + hi\<bar>"
  have P0: "0 \<le> P" using k0 by (simp add: P_def)
  have u8: "(2::real) powi (- 50) = 8 / 9007199254740992"
    by (simp add: power_int_minus)
  have "\<bar>kv * x + t - w / 2\<bar> \<le> 15 / 100 * w + 8 / 9007199254740992 * (w + P)"
    if x: "lo \<le> x" "x \<le> hi" for x
  proof -
    define g where "g = kv * (x - (lo + hi) / 2)"
    have "\<bar>x - (lo + hi) / 2\<bar> \<le> (hi - lo) / 2" using x by argo
    then have "kv * \<bar>x - (lo + hi) / 2\<bar> \<le> kv * ((hi - lo) / 2)"
      using k0 by (intro mult_left_mono) simp_all
    moreover have "kv * \<bar>x - (lo + hi) / 2\<bar> = \<bar>g\<bar>"
      using k0 by (simp add: g_def abs_mult)
    ultimately have g: "\<bar>g\<bar> \<le> kv * (hi - lo) / 2" by simp
    have "kv * x + t - w / 2 = g + (t - (w / 2 - kv * (lo + hi) / 2))"
      by (simp add: g_def algebra_simps)
    then show ?thesis
      using g ext t(2) w0 P0 unfolding P_def [symmetric] by argo
  qed
  then show ?thesis
    using t(1) unfolding u8 P_def by blast
qed

text \<open>
  C6, as stated, fails: for two points 256 degrees of longitude apart the smaller fit factor
  is 0.0375, the scale is clamped up to the minimum zoom 0.2, and the scaled bounding box
  is 1638.4 pixels wide in a viewport of 1024 pixels, so the points cannot all lie within
  it.
\<close>

theorem far_apart_points_leave_viewport_counterexample:
  "2 \<le> length far_apart_coords \<and>
   map (projection sample_env) far_apart_coords
     = [(Fin (- 7680), Fin 224), (Fin 512, Fin 288)] \<and>
   width sample_env = 1024 \<and>
   scale_k (fitBounds sample_env far_apart_coords lit_0_35 identity_transform)
     = Fin (3602879701896397 / 18014398509481984) \<and>
   (1024::real) < 3602879701896397 / 18014398509481984 * (512 - (- 7680))"
proof -
  define ps :: "(real \<times> real) list" where "ps = [(- 7680, 224), (512, 288)]"
  have p1: "fl (- 7680) = Fin (- 7680)"
    by (subst fl_eval [where e = "12"]) (simp_all add: round_even_def Let_def)
  have p2: "fl (224) = Fin 224"
    by (subst fl_eval [where e = "7"]) (simp_all add: round_even_def Let_def)
  have p3: "fl (512) = Fin 512"
    by (subst fl_eval [where e = "9"]) (simp_all add: round_even_def Let_def)
  have p4: "fl (288) = Fin 288"
    by (subst fl_eval [where e = "8"]) (simp_all add: round_even_def Let_def)
  have proj0: "map (projection sample_env) far_apart_coords
                 = [(Fin (- 7680), Fin 224), (Fin 512, Fin 288)]"
    by (simp add: sample_env_def far_apart_coords_def sample_projection_def p1 p2 p3 p4)
  then have proj: "map (projection sample_env) far_apart_coords
                 = map (\<lambda>(x, y). (Fin x, Fin y)) ps"
    by (simp add: ps_def)
  have mm: "Min (fst ` set ps) = - 7680" "Max (fst ` set ps) = 512"
    "Min (snd ` set ps) = 224" "Max (snd ` set ps) = 288"
    by (simp_all add: ps_def)
  have r: "svgReady sample_env" "containerReady sample_env" "zoomReady sample_env"
    "projectionReady sample_env"
    by (simp_all add: sample_env_def)
  have wh: "width sample_env = 1024" "height sample_env = 512"
    by (simp_all add: sample_env_def)
  have ne: "far_apart_coords \<noteq> []" by (simp add: far_apart_coords_def)
  have A: "f64_mul (Fin 1024) (Fin (1351079888211149 / 4503599627370496)) = Fin (1351079888211149 / 4398046511104)"
    unfolding f64_mul_def rnd_def js_sub_def
    by simp (subst fl_eval [where e = "8"], simp_all add: round_even_def Let_def)
  have B: "f64_mul (Fin 512) (Fin (1351079888211149 / 4503599627370496)) = Fin (1351079888211149 / 8796093022208)"
    unfolding f64_mul_def rnd_def js_sub_def
    by simp (subst fl_eval [where e = "7"], simp_all add: round_even_def Let_def)
  have bw: "f64_sub (Fin 512) (Fin (- 7680)) = Fin 8192"
    unfolding f64_sub_def rnd_def js_sub_def
    by simp (subst fl_eval [where e = "13"], simp_all add: round_even_def Let_def)
  have bh: "f64_sub (Fin 288) (Fin 224) = Fin 64"
    unfolding f64_sub_def rnd_def js_sub_def
    by simp (subst fl_eval [where e = "6"], simp_all add: round_even_def Let_def)
  have sx: "f64_div (Fin (1351079888211149 / 4398046511104)) (Fin 8192) = Fin (1351079888211149 / 36028797018963968)"
    unfolding f64_div_def rnd_def js_sub_def
    by simp (subst fl_eval [where e = "- 5"], simp_all add: round_even_def Let_def)
  have sy: "f64_div (Fin (1351079888211149 / 8796093022208)) (Fin 64) = Fin (1351079888211149 / 562949953421312)"
    unfolding f64_div_def rnd_def js_sub_def
    by simp (subst fl_eval [where e = "1"], simp_all add: round_even_def Let_def)
  have nd: "\<not> (f64_sub (Fin (Max (fst ` set ps))) (Fin (Min (fst ` set ps))) = Fin 0 \<and>
             f64_sub (Fin (Max (snd ` set ps))) (Fin (Min (snd ` set ps))) = Fin 0)"
    unfolding mm bw bh by simp
  have "scale_k (fitBounds sample_env far_apart_coords lit_0_35 identity_transform)
          = Fin (3602879701896397 / 18014398509481984)"
    unfolding fitBounds_fit [OF r proj ne nd] mm wh pad_factor A B bw bh sx sy
    by (simp add: Math_min_def js_gt_def lit_0_2)
  with proj0 wh(1) show ?thesis
    by (simp add: far_apart_coords_def)
qed

text \<open>
  C6, amended: for at least two points with finite projections whose computed bounding
  box is not a single point, in a container whose width and height lie between \<open>2^-1000\<close>
  and \<open>2^1000\<close> pixels and with the padding fraction 0.35 that every caller passes,
  \<open>fitBounds\<close> sets the scale \<open>k\<close> to the minimum of the horizontal and vertical fit
  factors, clamped to lie between the minimum zoom 0.2 and the maximum zoom 8; each fit
  factor is the viewport extent times \<open>1 - 0.35 * 2\<close> divided by the extent of the box, all
  in double arithmetic, and the translation is the one the code computes to centre the box.
  If that minimum is at least 0.2, then \<open>k\<close> exceeds neither fit factor; and if moreover no
  projected coordinate exceeds \<open>2^1000\<close> in magnitude, every projected point, scaled by \<open>k\<close>
  and translated, lies within the viewport minus the padding fraction 0.35 on each side, up
  to a rounding tolerance of \<open>2^-50\<close> times the sum of the viewport extent and \<open>k\<close> times
  the magnitude of the sum of the two bounds of the box on that axis.
\<close>

theorem fitBounds_clamped_fit:
  fixes env coords vt ps
  defines "minX \<equiv> Min (fst ` set ps)" and "maxX \<equiv> Max (fst ` set ps)"
    and "minY \<equiv> Min (snd ` set ps)" and "maxY \<equiv> Max (snd ` set ps)"
  defines "c \<equiv> f64_sub (Fin 1) (f64_mul lit_0_35 (Fin 2))"
  defines "scaleX \<equiv> f64_div (f64_mul (Fin (width env)) c) (f64_sub (Fin maxX) (Fin minX))"
    and "scaleY \<equiv> f64_div (f64_mul (Fin (height env)) c) (f64_sub (Fin maxY) (Fin minY))"
  defines "k \<equiv> (if js_gt (Math_min scaleX scaleY) (Fin 8) then Fin 8
                 else if js_lt (Math_min scaleX scaleY) lit_0_2 then lit_0_2
                 else Math_min scaleX scaleY)"
  assumes ready: "svgReady env" "containerReady env" "zoomReady env" "projectionReady env"
    and proj: "map (projection env) coords = map (\<lambda>(x, y). (Fin x, Fin y)) ps"
    and n2: "2 \<le> length coords"
    and nd: "\<not> (f64_sub (Fin maxX) (Fin minX) = Fin 0 \<and> f64_sub (Fin maxY) (Fin minY) = Fin 0)"
    and wd: "2 powi (- 1000) \<le> width env" "width env \<le> 2 ^ 1000"
    and ht: "2 powi (- 1000) \<le> height env" "height env \<le> 2 ^ 1000"
  shows "fitBounds env coords lit_0_35 vt =
           \<lparr>scale_k = k,
            trans_x = f64_sub (f64_div (Fin (width env)) (Fin 2))
                        (f64_div (f64_mul k (f64_add (Fin minX) (Fin maxX))) (Fin 2)),
            trans_y = f64_sub (f64_div (Fin (height env)) (Fin 2))
                        (f64_div (f64_mul k (f64_add (Fin minY) (Fin maxY))) (Fin 2))\<rparr> \<and>
         (\<exists>kv. k = Fin kv \<and> 2 / 10 \<le> kv \<and> kv \<le> 8) \<and>
         \<not> js_lt k lit_0_2 \<and> \<not> js_gt k (Fin 8) \<and>
         (\<not> js_lt (Math_min scaleX scaleY) lit_0_2 \<longrightarrow>
            \<not> js_lt scaleX k \<and> \<not> js_lt scaleY k) \<and>
         (\<not> js_lt (Math_min scaleX scaleY) lit_0_2 \<and>
          (\<forall>p \<in> set ps. \<bar>fst p\<bar> \<le> 2 ^ 1000 \<and> \<bar>snd p\<bar> \<le> 2 ^ 1000) \<longrightarrow>
            (\<exists>kv tx ty.
               fitBounds env coords lit_0_35 vt
                 = \<lparr>scale_k = Fin kv, trans_x = Fin tx, trans_y = Fin ty\<rparr> \<and>
               (\<forall>p \<in> set ps.
                  35 / 100 * width env - 2 powi (- 50) * (width env + kv * \<bar>minX + maxX\<bar>)
                    \<le> kv * fst p + tx \<and>
                  kv * fst p + tx
                    \<le> 65 / 100 * width env + 2 powi (- 50) * (width env + kv * \<bar>minX + maxX\<bar>) \<and>
                  35 / 100 * height env - 2 powi (- 50) * (height env + kv * \<bar>minY + maxY\<bar>)
                    \<le> kv * snd p + ty \<and>
                  kv * snd p + ty
                    \<le> 65 / 100 * height env
                        + 2 powi (- 50) * (height env + kv * \<bar>minY + maxY\<bar>))))"
proof -
  define cv :: real where "cv = 1351079888211149 / 4503599627370496"
  have c: "c = Fin cv" by (simp add: c_def cv_def pad_factor)
  have cv: "1 / 4 \<le> cv" "cv \<le> 1" by (simp_all add: cv_def)
  have small: "(2::real) powi (- 1022) \<le> 2 powi (- 1000) / 4"
  proof -
    have "(2::real) powi (- 1022) \<le> 2 powi (- 1002)"
      by (rule power_int_increasing) simp_all
    also have "(2::real) powi (- 1002) = 2 powi (- 1000) / 4"
      by (simp add: power_int_minus field_simps)
    finally show ?thesis .
  qed
  have big: "(2::real) ^ 1000 < 2 ^ 1023" by simp
  have extent: "\<exists>a. f64_mul (Fin s) c = Fin a \<and> 0 < a"
    if s: "2 powi (- 1000) \<le> s" "s \<le> 2 ^ 1000" for s :: real
  proof -
    have s0: "0 < s"
      using s(1) zero_less_power_int [of "2::real" "- 1000"] by linarith
    have "s / 4 \<le> s * cv" using cv(1) s0 by (simp add: field_simps)
    with s(1) small have lo: "2 powi (- 1022) \<le> s * cv" by linarith
    have "s * cv \<le> s * 1" using cv(2) s0 by (intro mult_left_mono) simp_all
    with s(2) big have hi: "s * cv < 2 ^ 1023" by linarith
    from fl_pos [OF lo hi] show ?thesis by (simp add: c f64_fin)
  qed
  from extent [OF wd] obtain a where a: "f64_mul (Fin (width env)) c = Fin a" "0 < a" by blast
  from extent [OF ht] obtain b where b: "f64_mul (Fin (height env)) c = Fin b" "0 < b" by blast
  have ne: "coords \<noteq> []" using n2 by auto
  then have psne: "ps \<noteq> []" using proj by auto
  have ordx: "0 \<le> maxX - minX" and ordy: "0 \<le> maxY - minY"
    unfolding minX_def maxX_def minY_def maxY_def using psne by simp_all
  have bw: "f64_sub (Fin maxX) (Fin minX) = PosInf \<or>
            (\<exists>r. f64_sub (Fin maxX) (Fin minX) = Fin r \<and> 0 \<le> r)"
    using fl_nonneg [OF ordx] by (simp add: f64_fin)
  have bh: "f64_sub (Fin maxY) (Fin minY) = PosInf \<or>
            (\<exists>r. f64_sub (Fin maxY) (Fin minY) = Fin r \<and> 0 \<le> r)"
    using fl_nonneg [OF ordy] by (simp add: f64_fin)
  have sx: "scaleX = PosInf \<or> (\<exists>s. scaleX = Fin s \<and> 0 \<le> s)"
    unfolding scaleX_def a(1) by (rule fit_factor_range [OF a(2) bw])
  have sy: "scaleY = PosInf \<or> (\<exists>s. scaleY = Fin s \<and> 0 \<le> s)"
    unfolding scaleY_def b(1) by (rule fit_factor_range [OF b(2) bh])
  note mn = Math_min_range [OF sx sy]
  note cl = clamp_range [OF mn [THEN conjunct1], folded k_def]
  have eq: "fitBounds env coords lit_0_35 vt =
           \<lparr>scale_k = k,
            trans_x = f64_sub (f64_div (Fin (width env)) (Fin 2))
                        (f64_div (f64_mul k (f64_add (Fin minX) (Fin maxX))) (Fin 2)),
            trans_y = f64_sub (f64_div (Fin (height env)) (Fin 2))
                        (f64_div (f64_mul k (f64_add (Fin minY) (Fin maxY))) (Fin 2))\<rparr>"
    using fitBounds_fit [OF ready proj ne nd [unfolded minX_def maxX_def minY_def maxY_def],
        of lit_0_35 vt]
    unfolding minX_def [symmetric] maxX_def [symmetric] minY_def [symmetric]
      maxY_def [symmetric] c_def [symmetric] scaleX_def [symmetric] scaleY_def [symmetric]
      cl(4)
    by simp
  from cl(1) obtain kv where kv: "k = Fin kv" "2 / 10 \<le> kv" "kv \<le> 8" by blast
  then have top: "\<not> js_gt k (Fin 8)" by (simp add: js_gt_def)
  have under: "\<not> js_lt scaleX k \<and> \<not> js_lt scaleY k"
    if "\<not> js_lt (Math_min scaleX scaleY) lit_0_2"
  proof -
    from cl(3) [OF that] have le: "\<not> js_lt (Math_min scaleX scaleY) k" .
    from mn have "\<not> js_lt scaleX (Math_min scaleX scaleY)"
      "\<not> js_lt scaleY (Math_min scaleX scaleY)" by simp_all
    moreover from mn have "Math_min scaleX scaleY = PosInf \<or>
        (\<exists>s. Math_min scaleX scaleY = Fin s \<and> 0 \<le> s)" by simp
    ultimately show ?thesis
      using le kv(1) sx sy by (elim disjE exE conjE) simp_all
  qed
  have inside: "\<exists>kv tx ty.
               fitBounds env coords lit_0_35 vt
                 = \<lparr>scale_k = Fin kv, trans_x = Fin tx, trans_y = Fin ty\<rparr> \<and>
               (\<forall>p \<in> set ps.
                  35 / 100 * width env - 2 powi (- 50) * (width env + kv * \<bar>minX + maxX\<bar>)
                    \<le> kv * fst p + tx \<and>
                  kv * fst p + tx
                    \<le> 65 / 100 * width env + 2 powi (- 50) * (width env + kv * \<bar>minX + maxX\<bar>) \<and>
                  35 / 100 * height env - 2 powi (- 50) * (height env + kv * \<bar>minY + maxY\<bar>)
                    \<le> kv * snd p + ty \<and>
                  kv * snd p + ty
                    \<le> 65 / 100 * height env
                        + 2 powi (- 50) * (height env + kv * \<bar>minY + maxY\<bar>))"
    if fit: "\<not> js_lt (Math_min scaleX scaleY) lit_0_2"
      and bd: "\<forall>p \<in> set ps. \<bar>fst p\<bar> \<le> 2 ^ 1000 \<and> \<bar>snd p\<bar> \<le> 2 ^ 1000"
  proof -
    have fin: "finite (fst ` set ps)" "finite (snd ` set ps)"
      and nonempty: "fst ` set ps \<noteq> {}" "snd ` set ps \<noteq> {}"
      using psne by simp_all
    have "minX \<in> fst ` set ps" "maxX \<in> fst ` set ps"
      unfolding minX_def maxX_def using fin(1) nonempty(1) by (rule Min_in, rule Max_in)
    with bd have bdx: "\<bar>minX\<bar> \<le> 2 ^ 1000" "\<bar>maxX\<bar> \<le> 2 ^ 1000" by auto
    have "minY \<in> snd ` set ps" "maxY \<in> snd ` set ps"
      unfolding minY_def maxY_def using fin(2) nonempty(2) by (rule Min_in, rule Max_in)
    with bd have bdy: "\<bar>minY\<bar> \<le> 2 ^ 1000" "\<bar>maxY\<bar> \<le> 2 ^ 1000" by auto
    have ox: "minX \<le> maxX" and oy: "minY \<le> maxY"
      using ordx ordy by simp_all
    have k10: "1 / 10 \<le> kv" using kv(2) by simp
    from under [OF fit] have
      fx: "\<not> js_lt (f64_div (f64_mul (Fin (width env))
                              (Fin (1351079888211149 / 4503599627370496)))
                     (f64_sub (Fin maxX) (Fin minX))) (Fin kv)"
      and fy: "\<not> js_lt (f64_div (f64_mul (Fin (height env))
                              (Fin (1351079888211149 / 4503599627370496)))
                     (f64_sub (Fin maxY) (Fin minY))) (Fin kv)"
      unfolding scaleX_def scaleY_def c cv_def kv(1) by simp_all
    from fit_axis [OF wd ox bdx k10 kv(3) fx] obtain tx where
      tx: "f64_sub (f64_div (Fin (width env)) (Fin 2))
             (f64_div (f64_mul (Fin kv) (f64_add (Fin minX) (Fin maxX))) (Fin 2)) = Fin tx"
      and cx: "\<And>x. minX \<le> x \<Longrightarrow> x \<le> maxX \<Longrightarrow>
                \<bar>kv * x + tx - width env / 2\<bar>
                  \<le> 15 / 100 * width env + 2 powi (- 50) * (width env + kv * \<bar>minX + maxX\<bar>)"
      by blast
    from fit_axis [OF ht oy bdy k10 kv(3) fy] obtain ty where
      ty: "f64_sub (f64_div (Fin (height env)) (Fin 2))
             (f64_div (f64_mul (Fin kv) (f64_add (Fin minY) (Fin maxY))) (Fin 2)) = Fin ty"
      and cy: "\<And>y. minY \<le> y \<Longrightarrow> y \<le> maxY \<Longrightarrow>
                \<bar>kv * y + ty - height env / 2\<bar>
                  \<le> 15 / 100 * height env
                      + 2 powi (- 50) * (height env + kv * \<bar>minY + maxY\<bar>)"
      by blast
    have res: "fitBounds env coords lit_0_35 vt
                 = \<lparr>scale_k = Fin kv, trans_x = Fin tx, trans_y = Fin ty\<rparr>"
      unfolding eq kv(1) tx ty by simp
    have "35 / 100 * width env - 2 powi (- 50) * (width env + kv * \<bar>minX + maxX\<bar>)
                    \<le> kv * fst p + tx \<and>
          kv * fst p + tx
                    \<le> 65 / 100 * width env + 2 powi (- 50) * (width env + kv * \<bar>minX + maxX\<bar>) \<and>
          35 / 100 * height env - 2 powi (- 50) * (height env + kv * \<bar>minY + maxY\<bar>)
                    \<le> kv * snd p + ty \<and>
          kv * snd p + ty
                    \<le> 65 / 100 * height env
                        + 2 powi (- 50) * (height env + kv * \<bar>minY + maxY\<bar>)"
      if p: "p \<in> set ps" for p
    proof -
      have "minX \<le> fst p" "fst p \<le> maxX"
        unfolding minX_def maxX_def using p fin(1) by simp_all
      from cx [OF this] have x: "\<bar>kv * fst p + tx - width env / 2\<bar>
          \<le> 15 / 100 * width env + 2 powi (- 50) * (width env + kv * \<bar>minX + maxX\<bar>)" .
      have "minY \<le> snd p" "snd p \<le> maxY"
        unfolding minY_def maxY_def using p fin(2) by simp_all
      from cy [OF this] have y: "\<bar>kv * snd p + ty - height env / 2\<bar>
          \<le> 15 / 100 * height env + 2 powi (- 50) * (height env + kv * \<bar>minY + maxY\<bar>)" .
      define ex where "ex = 2 powi (- 50) * (width env + kv * \<bar>minX + maxX\<bar>)"
      define ey where "ey = 2 powi (- 50) * (height env + kv * \<bar>minY + maxY\<bar>)"
      from x have "35 / 100 * width env - ex \<le> kv * fst p + tx"
        "kv * fst p + tx \<le> 65 / 100 * width env + ex"
        unfolding ex_def [symmetric] by argo+
      moreover from y have "35 / 100 * height env - ey \<le> kv * snd p + ty"
        "kv * snd p + ty \<le> 65 / 100 * height env + ey"
        unfolding ey_def [symmetric] by argo+
      ultimately show ?thesis unfolding ex_def ey_def by blast
    qed
    with res show ?thesis by blast
  qed
  from eq kv cl(2) top under inside show ?thesis by blast
qed

theorem fitBounds_clamped_fit_witness:
  "2 \<le> length nearby_coords \<and>
   map (projection sample_env) nearby_coords
     = [(Fin 384, Fin 224), (Fin 640, Fin 288)] \<and>
   f64_sub (Fin 640) (Fin 384) = Fin 256 \<and>
   (2::real) powi (- 1000) \<le> 1024 \<and> (1024::real) \<le> 2 ^ 1000 \<and>
   fitBounds sample_env nearby_coords lit_0_35 identity_transform
     = \<lparr>scale_k = Fin (1351079888211149 / 1125899906842624),
        trans_x = Fin (- (225179981368525 / 2199023255552)),
        trans_y = Fin (- (225179981368525 / 4398046511104))\<rparr> \<and>
   Math_min (Fin (1351079888211149 / 1125899906842624)) (Fin (1351079888211149 / 562949953421312)) = Fin (1351079888211149 / 1125899906842624) \<and>
   \<not> js_lt (Fin (1351079888211149 / 1125899906842624)) lit_0_2 \<and>
   (35::real) / 100 * 1024 - 2 powi (- 50) * (1024 + 1351079888211149 / 1125899906842624 * \<bar>384 + 640\<bar>)
     \<le> 1351079888211149 / 1125899906842624 * 384 + - (225179981368525 / 2199023255552) \<and>
   1351079888211149 / 1125899906842624 * 640 + - (225179981368525 / 2199023255552)
     \<le> (65::real) / 100 * 1024 + 2 powi (- 50) * (1024 + 1351079888211149 / 1125899906842624 * \<bar>384 + 640\<bar>) \<and>
   (35::real) / 100 * 512 - 2 powi (- 50) * (512 + 1351079888211149 / 1125899906842624 * \<bar>224 + 288\<bar>)
     \<le> 1351079888211149 / 1125899906842624 * 224 + - (225179981368525 / 4398046511104) \<and>
   1351079888211149 / 1125899906842624 * 288 + - (225179981368525 / 4398046511104)
     \<le> (65::real) / 100 * 512 + 2 powi (- 50) * (512 + 1351079888211149 / 1125899906842624 * \<bar>224 + 288\<bar>)"
proof -
  define ps :: "(real \<times> real) list" where "ps = [(384, 224), (640, 288)]"
  have p1: "fl (384) = Fin 384"
    by (subst fl_eval [where e = "8"]) (simp_all add: round_even_def Let_def)
  have p2: "fl (224) = Fin 224"
    by (subst fl_eval [where e = "7"]) (simp_all add: round_even_def Let_def)
  have p3: "fl (640) = Fin 640"
    by (subst fl_eval [where e = "9"]) (simp_all add: round_even_def Let_def)
  have p4: "fl (288) = Fin 288"
    by (subst fl_eval [where e = "8"]) (simp_all add: round_even_def Let_def)
  have proj0: "map (projection sample_env) nearby_coords
                 = [(Fin 384, Fin 224), (Fin 640, Fin 288)]"
    by (simp add: sample_env_def nearby_coords_def sample_projection_def p1 p2 p3 p4)
  then have proj: "map (projection sample_env) nearby_coords
                 = map (\<lambda>(x, y). (Fin x, Fin y)) ps"
    by (simp add: ps_def)
  have mm: "Min (fst ` set ps) = 384" "Max (fst ` set ps) = 640"
    "Min (snd ` set ps) = 224" "Max (snd ` set ps) = 288"
    by (simp_all add: ps_def)
  have r: "svgReady sample_env" "containerReady sample_env" "zoomReady sample_env"
    "projectionReady sample_env"
    by (simp_all add: sample_env_def)
  have wh: "width sample_env = 1024" "height sample_env = 512"
    by (simp_all add: sample_env_def)
  have n2: "2 \<le> length nearby_coords" by (simp add: nearby_coords_def)
  have sz: "(2::real) powi (- 1000) \<le> 1024" "(1024::real) \<le> 2 ^ 1000"
    "(2::real) powi (- 1000) \<le> 512" "(512::real) \<le> 2 ^ 1000"
    by (simp_all add: power_int_minus)
  have A: "f64_mul (Fin 1024) (Fin (1351079888211149 / 4503599627370496)) = Fin (1351079888211149 / 4398046511104)"
    unfolding f64_mul_def rnd_def js_sub_def
    by simp (subst fl_eval [where e = "8"], simp_all add: round_even_def Let_def)
  have B: "f64_mul (Fin 512) (Fin (1351079888211149 / 4503599627370496)) = Fin (1351079888211149 / 8796093022208)"
    unfolding f64_mul_def rnd_def js_sub_def
    by simp (subst fl_eval [where e = "7"], simp_all add: round_even_def Let_def)
  have bw: "f64_sub (Fin 640) (Fin 384) = Fin 256"
    unfolding f64_sub_def rnd_def js_sub_def
    by simp (subst fl_eval [where e = "8"], simp_all add: round_even_def Let_def)
  have bh: "f64_sub (Fin 288) (Fin 224) = Fin 64"
    unfolding f64_sub_def rnd_def js_sub_def
    by simp (subst fl_eval [where e = "6"], simp_all add: round_even_def Let_def)
  have sx: "f64_div (Fin (1351079888211149 / 4398046511104)) (Fin 256) = Fin (1351079888211149 / 1125899906842624)"
    unfolding f64_div_def rnd_def js_sub_def
    by simp (subst fl_eval [where e = "0"], simp_all add: round_even_def Let_def)
  have sy: "f64_div (Fin (1351079888211149 / 8796093022208)) (Fin 64) = Fin (1351079888211149 / 562949953421312)"
    unfolding f64_div_def rnd_def js_sub_def
    by simp (subst fl_eval [where e = "1"], simp_all add: round_even_def Let_def)
  have ax: "f64_add (Fin 384) (Fin 640) = Fin 1024"
    unfolding f64_add_def rnd_def js_sub_def
    by simp (subst fl_eval [where e = "10"], simp_all add: round_even_def Let_def)
  have kx: "f64_mul (Fin (1351079888211149 / 1125899906842624)) (Fin 1024) = Fin (1351079888211149 / 1099511627776)"
    unfolding f64_mul_def rnd_def js_sub_def
    by simp (subst fl_eval [where e = "10"], simp_all add: round_even_def Let_def)
  have hx: "f64_div (Fin (1351079888211149 / 1099511627776)) (Fin 2) = Fin (1351079888211149 / 2199023255552)"
    unfolding f64_div_def rnd_def js_sub_def
    by simp (subst fl_eval [where e = "9"], simp_all add: round_even_def Let_def)
  have w2: "f64_div (Fin 1024) (Fin 2) = Fin 512"
    unfolding f64_div_def rnd_def js_sub_def
    by simp (subst fl_eval [where e = "9"], simp_all add: round_even_def Let_def)
  have tx: "f64_sub (Fin 512) (Fin (1351079888211149 / 2199023255552)) = Fin (- (225179981368525 / 2199023255552))"
    unfolding f64_sub_def rnd_def js_sub_def
    by simp (subst fl_eval [where e = "6"], simp_all add: round_even_def Let_def)
  have ay: "f64_add (Fin 224) (Fin 288) = Fin 512"
    unfolding f64_add_def rnd_def js_sub_def
    by simp (subst fl_eval [where e = "9"], simp_all add: round_even_def Let_def)
  have ky: "f64_mul (Fin (1351079888211149 / 1125899906842624)) (Fin 512) = Fin (1351079888211149 / 2199023255552)"
    unfolding f64_mul_def rnd_def js_sub_def
    by simp (subst fl_eval [where e = "9"], simp_all add: round_even_def Let_def)
  have hy: "f64_div (Fin (1351079888211149 / 2199023255552)) (Fin 2) = Fin (1351079888211149 / 4398046511104)"
    unfolding f64_div_def rnd_def js_sub_def
    by simp (subst fl_eval [where e = "8"], simp_all add: round_even_def Let_def)
  have h2: "f64_div (Fin 512) (Fin 2) = Fin 256"
    unfolding f64_div_def rnd_def js_sub_def
    by simp (subst fl_eval [where e = "8"], simp_all add: round_even_def Let_def)
  have ty: "f64_sub (Fin 256) (Fin (1351079888211149 / 4398046511104)) = Fin (- (225179981368525 / 4398046511104))"
    unfolding f64_sub_def rnd_def js_sub_def
    by simp (subst fl_eval [where e = "5"], simp_all add: round_even_def Let_def)
  have nd: "\<not> (f64_sub (Fin (Max (fst ` set ps))) (Fin (Min (fst ` set ps))) = Fin 0 \<and>
             f64_sub (Fin (Max (snd ` set ps))) (Fin (Min (snd ` set ps))) = Fin 0)"
    unfolding mm bw bh by simp
  have mn: "Math_min (Fin (1351079888211149 / 1125899906842624)) (Fin (1351079888211149 / 562949953421312)) = Fin (1351079888211149 / 1125899906842624)"
    by (simp add: Math_min_def)
  have cl: "(if js_gt (Fin (1351079888211149 / 1125899906842624)) (Fin 8) then Fin 8
             else if js_lt (Fin (1351079888211149 / 1125899906842624)) lit_0_2 then lit_0_2 else Fin (1351079888211149 / 1125899906842624)) = Fin (1351079888211149 / 1125899906842624)"
    by (simp add: js_gt_def lit_0_2)
  note th = fitBounds_clamped_fit [OF r proj n2 nd sz(1,2) [folded wh(1)] sz(3,4) [folded wh(2)],
      of identity_transform]
  from th have "fitBounds sample_env nearby_coords lit_0_35 identity_transform
     = \<lparr>scale_k = Fin (1351079888211149 / 1125899906842624),
        trans_x = Fin (- (225179981368525 / 2199023255552)),
        trans_y = Fin (- (225179981368525 / 4398046511104))\<rparr>"
    unfolding mm wh pad_factor A B bw bh sx sy mn cl ax ay kx ky hx hy w2 h2 tx ty
    by blast
  note res = this
  have fit: "\<not> js_lt (Fin (1351079888211149 / 1125899906842624)) lit_0_2"
    by (simp add: lit_0_2)
  have bd: "\<forall>p \<in> set ps. \<bar>fst p\<bar> \<le> 2 ^ 1000 \<and> \<bar>snd p\<bar> \<le> 2 ^ 1000"
    by (simp add: ps_def)
  note inside = th [THEN conjunct2, THEN conjunct2, THEN conjunct2, THEN conjunct2,
      THEN conjunct2, unfolded mm wh pad_factor A B bw bh sx sy mn, rule_format, OF conjI,
      OF fit bd]
  then obtain kv tx' ty' where
    r': "fitBounds sample_env nearby_coords lit_0_35 identity_transform
          = \<lparr>scale_k = Fin kv, trans_x = Fin tx', trans_y = Fin ty'\<rparr>"
    and pts: "\<forall>p \<in> set ps.
        35 / 100 * 1024 - 2 powi (- 50) * (1024 + kv * \<bar>384 + 640\<bar>) \<le> kv * fst p + tx' \<and>
        kv * fst p + tx' \<le> 65 / 100 * 1024 + 2 powi (- 50) * (1024 + kv * \<bar>384 + 640\<bar>) \<and>
        35 / 100 * 512 - 2 powi (- 50) * (512 + kv * \<bar>224 + 288\<bar>) \<le> kv * snd p + ty' \<and>
        kv * snd p + ty' \<le> 65 / 100 * 512 + 2 powi (- 50) * (512 + kv * \<bar>224 + 288\<bar>)"
    by blast
  from r' res have v: "kv = 1351079888211149 / 1125899906842624"
    "tx' = - (225179981368525 / 2199023255552)"
    "ty' = - (225179981368525 / 4398046511104)"
    by simp_all
  have mem: "(384, 224) \<in> set ps" "(640, 288) \<in> set ps"
    by (simp_all add: ps_def)
  from pts mem(1) have
    "35 / 100 * 1024 - 2 powi (- 50) * (1024 + kv * \<bar>384 + 640\<bar>) \<le> kv * 384 + tx'"
    "35 / 100 * 512 - 2 powi (- 50) * (512 + kv * \<bar>224 + 288\<bar>) \<le> kv * 224 + ty'"
    by fastforce+
  moreover from pts mem(2) have
    "kv * 640 + tx' \<le> 65 / 100 * 1024 + 2 powi (- 50) * (1024 + kv * \<bar>384 + 640\<bar>)"
    "kv * 288 + ty' \<le> 65 / 100 * 512 + 2 powi (- 50) * (512 + kv * \<bar>224 + 288\<bar>)"
    by fastforce+
  ultimately have c:
    "(35::real) / 100 * 1024 - 2 powi (- 50) * (1024 + 1351079888211149 / 1125899906842624 * \<bar>384 + 640\<bar>)
      \<le> 1351079888211149 / 1125899906842624 * 384 + - (225179981368525 / 2199023255552) \<and>
    1351079888211149 / 1125899906842624 * 640 + - (225179981368525 / 2199023255552)
      \<le> (65::real) / 100 * 1024 + 2 powi (- 50) * (1024 + 1351079888211149 / 1125899906842624 * \<bar>384 + 640\<bar>) \<and>
    (35::real) / 100 * 512 - 2 powi (- 50) * (512 + 1351079888211149 / 1125899906842624 * \<bar>224 + 288\<bar>)
      \<le> 1351079888211149 / 1125899906842624 * 224 + - (225179981368525 / 4398046511104) \<and>
    1351079888211149 / 1125899906842624 * 288 + - (225179981368525 / 4398046511104)
      \<le> (65::real) / 100 * 512 + 2 powi (- 50) * (512 + 1351079888211149 / 1125899906842624 * \<bar>224 + 288\<bar>)"
    unfolding v by blast
  from n2 proj0 bw sz(1,2) res mn fit c show ?thesis by blast
qed

subsection \<open>Which points the early-warning effect fits\<close>

lemma sample_projection_Tokyo:
  "\<exists>x y. projection sample_env (Fin (13969 / 100), Fin (3568 / 100)) = (Fin x, Fin y)"
proof -
  have "\<exists>r. fl (512 + 32 * (13969 / 100 - 137)) = Fin r \<and> 0 < r"
    by (rule fl_pos) (simp_all add: power_int_minus)
  moreover have "\<exists>r. fl (256 - 32 * (3568 / 100 - 38)) = Fin r \<and> 0 < r"
    by (rule fl_pos) (simp_all add: power_int_minus)
  ultimately show ?thesis
    by (auto simp add: sample_env_def sample_projection_def)
qed

text \<open>
  C9, as stated, fails: when the hypocentre name does not resolve and the one area name
  does, the early-warning effect leaves the viewport as it is, although fitting the
  resolvable subset would have set the scale to 8.
\<close>

theorem unresolved_hypocenter_counterexample:
  "hypocenterName eew_unknown_hypocenter = Some [0x58] \<and>
   areas eew_unknown_hypocenter = [str_Tokyo] \<and>
   findCoordinate small_gazetteer [0x58] = None \<and>
   findCoordinate small_gazetteer str_Tokyo = Some (Fin (13969 / 100), Fin (3568 / 100)) \<and>
   scale_k (fitBounds sample_env [(Fin (13969 / 100), Fin (3568 / 100))] lit_0_35
              identity_transform) = Fin 8 \<and>
   eew_zoom_effect small_gazetteer sample_env True True eew_unknown_hypocenter identity_transform
     = identity_transform \<and>
   scale_k identity_transform = Fin 1"
proof -
  from sample_projection_Tokyo obtain x y where
    "projection sample_env (Fin (13969 / 100), Fin (3568 / 100)) = (Fin x, Fin y)"
    by blast
  then have "scale_k (fitBounds sample_env [(Fin (13969 / 100), Fin (3568 / 100))] lit_0_35
              identity_transform) = Fin 8"
    by (intro fitBounds_single_point) (simp_all add: sample_env_def)
  moreover have "eew_zoom_effect small_gazetteer sample_env True True eew_unknown_hypocenter
      identity_transform = identity_transform"
    by (simp add: eew_zoom_effect_def eew_unknown_hypocenter_def warning_final_state_def
        small_gazetteer_lookups)
  ultimately show ?thesis
    by (simp add: small_gazetteer_lookups eew_unknown_hypocenter_def warning_final_state_def
        identity_transform_def)
qed

text \<open>
  C9, amended: \<open>fitBounds\<close> returns the viewport transform unchanged when the coordinate
  list is empty or no projected point has a valid x. The early-warning effect leaves the
  transform unchanged when its guard fails (the state is not active, the occurrence time or
  the hypocentre name is missing or empty, or the map group or the projection is absent), and
  when the hypocentre name does not resolve, whatever the areas. When the guard holds and the
  hypocentre resolves, the result is: the transform unchanged if automatic zoom is off; the fit
  of the hypocentre followed by exactly the area names that resolve, in their order, with
  padding 0.35, if automatic zoom is on, the area list is not empty and the geo data is
  loaded; the fit of the hypocentre alone, with padding 0.35, if automatic zoom is on and the
  area list is empty or the geo data is not loaded.
\<close>

theorem fit_uses_resolved_points:
  "(coords = [] \<or> (\<forall>c \<in> set coords. fst (projection env c) = NaN) \<longrightarrow>
      fitBounds env coords pad vt = vt) \<and>
   (\<not> (isActive eew \<and> truthy_str (occurredTime eew) \<and> truthy_str (hypocenterName eew) \<and>
       gReady env \<and> projectionReady env) \<longrightarrow>
      eew_zoom_effect g env az jp eew vt = vt) \<and>
   (hypocenterName eew = Some name \<and> findCoordinate g name = None \<longrightarrow>
      eew_zoom_effect g env az jp eew vt = vt) \<and>
   (isActive eew \<and> truthy_str (occurredTime eew) \<and> hypocenterName eew = Some name \<and>
    name \<noteq> [] \<and> gReady env \<and> projectionReady env \<and>
    findCoordinate g name = Some origin \<longrightarrow>
      eew_zoom_effect g env az jp eew vt =
        (if \<not> az then vt
         else if areas eew \<noteq> [] \<and> jp
         then fitBounds env
                (origin # map (the \<circ> findCoordinate g)
                            (filter (\<lambda>a. findCoordinate g a \<noteq> None) (areas eew)))
                lit_0_35 vt
         else fitBounds env [origin] lit_0_35 vt))"
proof -
  have a: "coords = [] \<or> (\<forall>c \<in> set coords. fst (projection env c) = NaN) \<longrightarrow>
      fitBounds env coords pad vt = vt"
    using fitBounds_nothing_valid by blast
  have g: "\<not> (isActive eew \<and> truthy_str (occurredTime eew) \<and> truthy_str (hypocenterName eew) \<and>
       gReady env \<and> projectionReady env) \<longrightarrow>
      eew_zoom_effect g env az jp eew vt = vt"
    by (simp add: eew_zoom_effect_def)
  have b: "hypocenterName eew = Some name \<and> findCoordinate g name = None \<longrightarrow>
      eew_zoom_effect g env az jp eew vt = vt"
    by (simp add: eew_zoom_effect_def)
  have c: "isActive eew \<and> truthy_str (occurredTime eew) \<and> hypocenterName eew = Some name \<and>
    name \<noteq> [] \<and> gReady env \<and> projectionReady env \<and>
    findCoordinate g name = Some origin \<longrightarrow>
      eew_zoom_effect g env az jp eew vt =
        (if \<not> az then vt
         else if areas eew \<noteq> [] \<and> jp
         then fitBounds env
                (origin # map (the \<circ> findCoordinate g)
                            (filter (\<lambda>a. findCoordinate g a \<noteq> None) (areas eew)))
                lit_0_35 vt
         else fitBounds env [origin] lit_0_35 vt)"
    by (simp add: eew_zoom_effect_def areaCoords_def List.map_filter_def)
  from a g b c show ?thesis by blast
qed

theorem fit_uses_resolved_points_witness:
  "fitBounds sample_env [] lit_0_35 identity_transform = identity_transform \<and>
   isActive idle_state = False \<and>
   eew_zoom_effect small_gazetteer sample_env True True idle_state identity_transform
     = identity_transform \<and>
   hypocenterName eew_unknown_hypocenter = Some [0x58] \<and>
   findCoordinate small_gazetteer [0x58] = None \<and>
   eew_zoom_effect small_gazetteer sample_env True True eew_unknown_hypocenter
       identity_transform
     = identity_transform \<and>
   hypocenterName eew_two_areas = Some str_Tokyo \<and>
   areas eew_two_areas = [str_Osaka, [0x58]] \<and>
   findCoordinate small_gazetteer str_Tokyo = Some (Fin (13969 / 100), Fin (3568 / 100)) \<and>
   findCoordinate small_gazetteer str_Osaka = Some (Fin (13552 / 100), Fin (3469 / 100)) \<and>
   eew_zoom_effect small_gazetteer sample_env True True eew_two_areas identity_transform
     = fitBounds sample_env
         [(Fin (13969 / 100), Fin (3568 / 100)), (Fin (13552 / 100), Fin (3469 / 100))]
         lit_0_35 identity_transform \<and>
   eew_zoom_effect small_gazetteer sample_env True False eew_two_areas identity_transform
     = fitBounds sample_env [(Fin (13969 / 100), Fin (3568 / 100))] lit_0_35
         identity_transform \<and>
   eew_zoom_effect small_gazetteer sample_env False True eew_two_areas identity_transform
     = identity_transform"
proof -
  have h: "isActive eew_two_areas \<and> truthy_str (occurredTime eew_two_areas) \<and>
    hypocenterName eew_two_areas = Some str_Tokyo \<and> str_Tokyo \<noteq> [] \<and> gReady sample_env \<and>
    projectionReady sample_env \<and>
    findCoordinate small_gazetteer str_Tokyo = Some (Fin (13969 / 100), Fin (3568 / 100))"
    by (simp add: eew_two_areas_def warning_final_state_def sample_env_def
        small_gazetteer_lookups) (simp add: str_Tokyo_def)
  have ar: "areas eew_two_areas = [str_Osaka, [0x58]]"
    by (simp add: eew_two_areas_def)
  have idle: "isActive idle_state = False"
    by (simp add: idle_state_def)
  have u: "hypocenterName eew_unknown_hypocenter = Some [0x58]"
    by (simp add: eew_unknown_hypocenter_def)
  note l = small_gazetteer_lookups
  have e1: "fitBounds sample_env [] lit_0_35 identity_transform = identity_transform"
    using fit_uses_resolved_points [of "[]" sample_env lit_0_35 identity_transform]
    by blast
  have e2: "eew_zoom_effect small_gazetteer sample_env True True idle_state identity_transform
     = identity_transform"
    using fit_uses_resolved_points [of _ sample_env _ identity_transform idle_state
        small_gazetteer True True] idle
    by blast
  have e3: "eew_zoom_effect small_gazetteer sample_env True True eew_unknown_hypocenter
       identity_transform = identity_transform"
    using fit_uses_resolved_points [of _ sample_env _ identity_transform eew_unknown_hypocenter
        small_gazetteer True True "[0x58]"] u l(1)
    by blast
  note th = fit_uses_resolved_points [of "[]" sample_env lit_0_35 identity_transform
      eew_two_areas small_gazetteer _ _ str_Tokyo "(Fin (13969 / 100), Fin (3568 / 100))"]
  from th [of True True] h have e4:
    "eew_zoom_effect small_gazetteer sample_env True True eew_two_areas identity_transform
     = fitBounds sample_env
         [(Fin (13969 / 100), Fin (3568 / 100)), (Fin (13552 / 100), Fin (3469 / 100))]
         lit_0_35 identity_transform"
    by (simp add: ar l)
  from th [of True False] h have e5:
    "eew_zoom_effect small_gazetteer sample_env True False eew_two_areas identity_transform
     = fitBounds sample_env [(Fin (13969 / 100), Fin (3568 / 100))] lit_0_35
         identity_transform"
    by (simp add: ar l)
  from th [of False True] h have e6:
    "eew_zoom_effect small_gazetteer sample_env False True eew_two_areas identity_transform
     = identity_transform"
    by (simp add: ar l)
  from e1 idle e2 u l e3 h ar e4 e5 e6 show ?thesis by blast
qed

section \<open>Properties of the wave animation\<close>

lemma elapsed_finite:
  "elapsed_seconds (Fin (real_of_int t0)) (t0 + d) = Fin (real_of_int d / 1000)"
  by (simp add: elapsed_seconds_def js_sub_def)

lemma animate_finite:
  assumes "0 \<le> d"
  shows "animate (Fin (real_of_int t0)) (t0 + d) =
           Draw (Fin (real_of_int d / 1000 * V_P_WAVE / KM_PER_DEG))
                (Fin (real_of_int d / 1000 * V_S_WAVE / KM_PER_DEG))"
  using assms
  by (simp add: animate_def elapsed_finite pRadiusKm_def sRadiusKm_def KM_PER_DEG_def Let_def)

text \<open>
  C7: for an origin instant \<open>t0\<close> and elapsed times \<open>0 \<le> d \<le> d'\<close> in milliseconds, the
  animation draws finite radii; the radii in kilometres are the elapsed seconds times the
  velocity constants; the primary radius is strictly greater than the secondary one when
  \<open>d > 0\<close>; and both radii at \<open>d'\<close> are at least those at \<open>d\<close>.
\<close>

theorem wave_radii_ordered:
  assumes "0 \<le> d" and "d \<le> d'"
  shows "\<exists>p s p' s'.
           animate (Fin (real_of_int t0)) (t0 + d) = Draw (Fin p) (Fin s) \<and>
           animate (Fin (real_of_int t0)) (t0 + d') = Draw (Fin p') (Fin s') \<and>
           pRadiusKm (elapsed_seconds (Fin (real_of_int t0)) (t0 + d)) = Fin (p * KM_PER_DEG) \<and>
           sRadiusKm (elapsed_seconds (Fin (real_of_int t0)) (t0 + d)) = Fin (s * KM_PER_DEG) \<and>
           p * KM_PER_DEG = real_of_int d / 1000 * V_P_WAVE \<and>
           s * KM_PER_DEG = real_of_int d / 1000 * V_S_WAVE \<and>
           (0 < d \<longrightarrow> s < p) \<and> 0 \<le> s \<and> p \<le> p' \<and> s \<le> s'"
proof -
  define p s p' s' where "p = real_of_int d / 1000 * V_P_WAVE / KM_PER_DEG"
    and "s = real_of_int d / 1000 * V_S_WAVE / KM_PER_DEG"
    and "p' = real_of_int d' / 1000 * V_P_WAVE / KM_PER_DEG"
    and "s' = real_of_int d' / 1000 * V_S_WAVE / KM_PER_DEG"
  have d': "0 \<le> d'" using assms by simp
  have a: "animate (Fin (real_of_int t0)) (t0 + d) = Draw (Fin p) (Fin s)"
    and a': "animate (Fin (real_of_int t0)) (t0 + d') = Draw (Fin p') (Fin s')"
    using animate_finite [OF assms(1)] animate_finite [OF d']
    by (simp_all add: p_def s_def p'_def s'_def)
  have km: "pRadiusKm (elapsed_seconds (Fin (real_of_int t0)) (t0 + d)) = Fin (p * KM_PER_DEG)"
    "sRadiusKm (elapsed_seconds (Fin (real_of_int t0)) (t0 + d)) = Fin (s * KM_PER_DEG)"
    "p * KM_PER_DEG = real_of_int d / 1000 * V_P_WAVE"
    "s * KM_PER_DEG = real_of_int d / 1000 * V_S_WAVE"
    by (simp_all add: elapsed_finite pRadiusKm_def sRadiusKm_def p_def s_def KM_PER_DEG_def)
  have ord: "0 < d \<longrightarrow> s < p" "0 \<le> s" "p \<le> p'" "s \<le> s'"
    using assms
    by (simp_all add: p_def s_def p'_def s'_def V_P_WAVE_def V_S_WAVE_def KM_PER_DEG_def)
  from a a' km ord show ?thesis by blast
qed

theorem wave_radii_ordered_witness:
  "(0::int) \<le> 2000 \<and> (2000::int) \<le> 6000 \<and>
   (\<exists>p s p' s'.
      animate (Fin 1000) 3000 = Draw (Fin p) (Fin s) \<and>
      animate (Fin 1000) 7000 = Draw (Fin p') (Fin s') \<and>
      s < p \<and> 0 \<le> s \<and> p \<le> p' \<and> s \<le> s')"
proof -
  have h: "(0::int) \<le> 2000" "(2000::int) \<le> 6000" by simp_all
  have n: "real_of_int 1000 = 1000" "(1000::int) + 2000 = 3000" "(1000::int) + 6000 = 7000"
    by simp_all
  from wave_radii_ordered [OF h, of 1000] obtain p s p' s' where
    "animate (Fin (real_of_int 1000)) (1000 + 2000) = Draw (Fin p) (Fin s)"
    "animate (Fin (real_of_int 1000)) (1000 + 6000) = Draw (Fin p') (Fin s')"
    "(0::int) < 2000 \<longrightarrow> s < p" "0 \<le> s" "p \<le> p'" "s \<le> s'"
    by blast
  then have "animate (Fin 1000) 3000 = Draw (Fin p) (Fin s) \<and>
      animate (Fin 1000) 7000 = Draw (Fin p') (Fin s') \<and>
      s < p \<and> 0 \<le> s \<and> p \<le> p' \<and> s \<le> s'"
    unfolding n by simp
  then show ?thesis
    using h by blast
qed

text \<open>
  C8: when the elapsed time is negative, in particular when the clock is before a finite
  origin instant, \<open>animate\<close> draws nothing and only re-schedules itself; and no circle it
  draws has a negative radius.
\<close>

theorem no_waves_before_origin:
  "(js_lt (elapsed_seconds startTime now) (Fin 0) \<longrightarrow> animate startTime now = Idle) \<and>
   (real_of_int now < t0 \<longrightarrow> animate (Fin t0) now = Idle) \<and>
   (\<forall>p s. animate startTime now = Draw p s \<longrightarrow> \<not> js_lt p (Fin 0) \<and> \<not> js_lt s (Fin 0))"
proof -
  have a: "js_lt (elapsed_seconds startTime now) (Fin 0) \<longrightarrow> animate startTime now = Idle"
    by (simp add: animate_def)
  have b: "real_of_int now < t0 \<longrightarrow> animate (Fin t0) now = Idle"
    by (simp add: animate_def elapsed_seconds_def js_sub_def)
  have c: "\<not> js_lt p (Fin 0) \<and> \<not> js_lt s (Fin 0)" if d: "animate startTime now = Draw p s" for p s
  proof -
    define e where "e = elapsed_seconds startTime now"
    from d have ne: "\<not> js_lt e (Fin 0)"
      and p: "p = js_div (pRadiusKm e) (Fin KM_PER_DEG)"
      and s: "s = js_div (sRadiusKm e) (Fin KM_PER_DEG)"
      by (auto simp: animate_def Let_def e_def split: if_splits)
    show ?thesis
      using ne unfolding p s
      by (cases e)
        (simp_all add: pRadiusKm_def sRadiusKm_def V_P_WAVE_def V_S_WAVE_def KM_PER_DEG_def
          not_less)
  qed
  from a b c show ?thesis by blast
qed

theorem no_waves_before_origin_witness:
  "js_lt (elapsed_seconds (Fin 5000) 3000) (Fin 0) \<and> animate (Fin 5000) 3000 = Idle"
proof -
  have h: "js_lt (elapsed_seconds (Fin 5000) 3000) (Fin 0)"
    by (simp add: elapsed_seconds_def js_sub_def)
  from no_waves_before_origin [of "Fin 5000" 3000 5000] h
  have "animate (Fin 5000) 3000 = Idle"
    by blast
  with h show ?thesis by blast
qed

end
